theory Spec2Isabelle
  imports Complex_Main "HOL-Library.Char_ord" "HOL-Library.List_Lexorder"
    "HOL-Library.Product_Lexorder"
begin

section \<open>Data model\<close>

text \<open>
  The entities of \<^verbatim>\<open>timetable_scheduler/models\<close>. Every dataclass is a record
  holding the fields the scheduling core reads (contact data, notes and timestamps are
  left out), every \<^verbatim>\<open>Enum\<close> is a datatype. Field names carry a prefix naming
  their class, because \<^verbatim>\<open>id\<close> and \<^verbatim>\<open>name\<close> occur in several classes. Python
  integers are \<^typ>\<open>int\<close>, Python floats are read as exact reals (rounding is not
  modelled), a \<^verbatim>\<open>Set[str]\<close> is a \<^typ>\<open>string set\<close>, and a \<^verbatim>\<open>dict\<close> whose
  order of insertion matters is an association list with unique keys.
\<close>

datatype error = KeyError | ValueError | IndexError

datatype CourseType = LECTURE | LABORATORY | TUTORIAL | SEMINAR

fun CourseType_value :: "CourseType \<Rightarrow> string" where
  "CourseType_value LECTURE = ''lecture''"
| "CourseType_value LABORATORY = ''laboratory''"
| "CourseType_value TUTORIAL = ''tutorial''"
| "CourseType_value SEMINAR = ''seminar''"

record Course =
  c_id :: string
  c_name :: string
  c_code :: string
  c_credits :: int
  c_duration :: int
  c_course_type :: CourseType
  c_capacity :: int
  c_required_equipment :: "string list"
  c_semester :: int
  c_branch :: string

datatype Availability = AVAILABLE | UNAVAILABLE | PREFERRED | NOT_PREFERRED

record Professor =
  p_id :: string
  p_name :: string
  p_department :: string
  p_specializations :: "string list"
  p_preferred_time_slots :: "string \<rightharpoonup> Availability"
  p_unavailable_slots :: "string set"
  p_is_active :: bool

datatype RoomType =
  CLASSROOM | ROOM_LABORATORY | COMPUTER_LAB | SEMINAR_HALL | AUDITORIUM | TUTORIAL_ROOM

fun RoomType_value :: "RoomType \<Rightarrow> string" where
  "RoomType_value CLASSROOM = ''classroom''"
| "RoomType_value ROOM_LABORATORY = ''laboratory''"
| "RoomType_value COMPUTER_LAB = ''computer_lab''"
| "RoomType_value SEMINAR_HALL = ''seminar_hall''"
| "RoomType_value AUDITORIUM = ''auditorium''"
| "RoomType_value TUTORIAL_ROOM = ''tutorial_room''"

datatype RoomFeature =
  PROJECTOR | WHITEBOARD | BLACKBOARD | SMART_BOARD | COMPUTERS | AIR_CONDITIONING
  | AUDIO_SYSTEM | MICROPHONE | INTERNET | POWER_OUTLETS | LABORATORY_EQUIPMENT

record Room =
  r_id :: string
  r_capacity :: int
  r_room_type :: RoomType
  r_features :: "RoomFeature list"
  r_is_available :: bool
  r_maintenance_slots :: "string set"

datatype DayOfWeek = MONDAY | TUESDAY | WEDNESDAY | THURSDAY | FRIDAY | SATURDAY | SUNDAY

fun DayOfWeek_value :: "DayOfWeek \<Rightarrow> string" where
  "DayOfWeek_value MONDAY = ''monday''"
| "DayOfWeek_value TUESDAY = ''tuesday''"
| "DayOfWeek_value WEDNESDAY = ''wednesday''"
| "DayOfWeek_value THURSDAY = ''thursday''"
| "DayOfWeek_value FRIDAY = ''friday''"
| "DayOfWeek_value SATURDAY = ''saturday''"
| "DayOfWeek_value SUNDAY = ''sunday''"

datatype SlotType = REGULAR | BREAK | LUNCH | EXTENDED

text \<open>A \<^verbatim>\<open>datetime.time\<close>: hour, minute, second, microsecond, compared in that order.\<close>

type_synonym time_of_day = "nat \<times> nat \<times> nat \<times> nat"

definition hour :: "time_of_day \<Rightarrow> nat" where
  "hour t = fst t"

text \<open>
  A time slot after \<^verbatim>\<open>__post_init__\<close>: \<^verbatim>\<open>duration_minutes\<close> is an integer,
  given by the caller or derived from the two times.
\<close>

record TimeSlot =
  ts_id :: string
  ts_day :: DayOfWeek
  ts_start_time :: time_of_day
  ts_end_time :: time_of_day
  ts_slot_type :: SlotType
  ts_duration_minutes :: int
  ts_is_active :: bool

record Assignment =
  a_id :: string
  a_course_id :: string
  a_professor_id :: string
  a_room_id :: string
  a_time_slot_id :: string
  a_session_number :: int

record Schedule =
  s_id :: string
  s_name :: string
  s_assignments :: "Assignment list"
  s_algorithm_used :: "string option"

section \<open>Schedule: conflict detection\<close>

text \<open>
  One scan of \<^verbatim>\<open>Schedule.has_conflicts\<close>: the set of pairs seen so far, and an early
  \<^verbatim>\<open>return True\<close> at the first pair that is already in it.
\<close>

fun seen_before :: "(Assignment \<Rightarrow> string \<times> string) \<Rightarrow> (string \<times> string) set
    \<Rightarrow> Assignment list \<Rightarrow> bool" where
  "seen_before pair seen [] = False"
| "seen_before pair seen (a # as) =
     (if pair a \<in> seen then True else seen_before pair (insert (pair a) seen) as)"

definition has_conflicts :: "Schedule \<Rightarrow> bool" where
  "has_conflicts s =
     (if seen_before (\<lambda>a. (a_professor_id a, a_time_slot_id a)) {} (s_assignments s)
      then True
      else seen_before (\<lambda>a. (a_room_id a, a_time_slot_id a)) {} (s_assignments s))"

text \<open>
  \<^verbatim>\<open>Schedule.get_conflict_count\<close>. The dictionary \<^verbatim>\<open>time_slot_assignments\<close> keeps
  its keys in order of first insertion; \<open>add_to_group\<close> is the body of the first loop
  (create the empty list under a new key, then append).
\<close>

fun add_to_group :: "(string \<times> Assignment list) list \<Rightarrow> string \<Rightarrow> Assignment
    \<Rightarrow> (string \<times> Assignment list) list" where
  "add_to_group [] k a = [(k, [a])]"
| "add_to_group ((k', g) # d) k a =
     (if k' = k then (k', g @ [a]) # d else (k', g) # add_to_group d k a)"

fun group_by_time_slot :: "(string \<times> Assignment list) list \<Rightarrow> Assignment list
    \<Rightarrow> (string \<times> Assignment list) list" where
  "group_by_time_slot d [] = d"
| "group_by_time_slot d (a # as) =
     group_by_time_slot (add_to_group d (a_time_slot_id a) a) as"

fun count_group_conflicts :: "int \<Rightarrow> Assignment list list \<Rightarrow> int" where
  "count_group_conflicts conflicts [] = conflicts"
| "count_group_conflicts conflicts (g # gs) =
     (if length g \<le> 1 then count_group_conflicts conflicts gs
      else
        let professors = map a_professor_id g;
            conflicts1 = conflicts + (int (length professors) - int (length (remdups professors)));
            rooms = map a_room_id g;
            conflicts2 = conflicts1 + (int (length rooms) - int (length (remdups rooms)))
        in count_group_conflicts conflicts2 gs)"

definition get_conflict_count :: "Schedule \<Rightarrow> int" where
  "get_conflict_count s =
     count_group_conflicts 0 (map snd (group_by_time_slot [] (s_assignments s)))"

section \<open>Entities: derived predicates\<close>

text \<open>
  \<^verbatim>\<open>str.lower()\<close> on ASCII text, and the substring test \<^verbatim>\<open>a in b\<close>.
\<close>

definition lower_char :: "char \<Rightarrow> char" where
  "lower_char c =
     (if CHR ''A'' \<le> c \<and> c \<le> CHR ''Z'' then char_of (of_char c + (32 :: nat)) else c)"

definition lower :: "string \<Rightarrow> string" where
  "lower s = map lower_char s"

fun starts_with :: "string \<Rightarrow> string \<Rightarrow> bool" where
  "starts_with s [] = True"
| "starts_with [] (c # cs) = False"
| "starts_with (x # xs) (c # cs) = (x = c \<and> starts_with xs cs)"

fun str_contains :: "string \<Rightarrow> string \<Rightarrow> bool" where
  "str_contains [] sub = (sub = [])"
| "str_contains (x # xs) sub = (starts_with (x # xs) sub \<or> str_contains xs sub)"

subsection \<open>Professor\<close>

definition can_teach_course :: "Professor \<Rightarrow> string \<Rightarrow> string \<Rightarrow> bool" where
  "can_teach_course p course_code course_specialization =
     (if \<not> p_is_active p then False
      else if course_specialization \<noteq> [] \<and> p_specializations p \<noteq> [] then
        (\<exists>spec \<in> set (p_specializations p). str_contains (lower course_specialization) (lower spec))
      else True)"

definition Professor_is_available_at :: "Professor \<Rightarrow> string \<Rightarrow> bool" where
  "Professor_is_available_at p time_slot_id =
     (if time_slot_id \<in> p_unavailable_slots p then False
      else
        let availability =
          (case p_preferred_time_slots p time_slot_id of None \<Rightarrow> AVAILABLE | Some v \<Rightarrow> v)
        in availability \<in> set [AVAILABLE, PREFERRED])"

definition get_preference_score :: "Professor \<Rightarrow> string \<Rightarrow> real" where
  "get_preference_score p time_slot_id =
     (if time_slot_id \<in> p_unavailable_slots p then 0
      else
        let availability =
          (case p_preferred_time_slots p time_slot_id of None \<Rightarrow> AVAILABLE | Some v \<Rightarrow> v)
        in if availability = PREFERRED then 1
           else if availability = AVAILABLE then 0.5
           else 0)"

subsection \<open>Room\<close>

text \<open>
  \<^verbatim>\<open>RoomFeature(text)\<close>: the member with that value, or \<^verbatim>\<open>ValueError\<close>, which the
  caller catches and skips; \<open>None\<close> stands for the exception.
\<close>

definition RoomFeature_of :: "string \<Rightarrow> RoomFeature option" where
  "RoomFeature_of v =
     (if v = ''projector'' then Some PROJECTOR
      else if v = ''whiteboard'' then Some WHITEBOARD
      else if v = ''blackboard'' then Some BLACKBOARD
      else if v = ''smart_board'' then Some SMART_BOARD
      else if v = ''computers'' then Some COMPUTERS
      else if v = ''air_conditioning'' then Some AIR_CONDITIONING
      else if v = ''audio_system'' then Some AUDIO_SYSTEM
      else if v = ''microphone'' then Some MICROPHONE
      else if v = ''internet'' then Some INTERNET
      else if v = ''power_outlets'' then Some POWER_OUTLETS
      else if v = ''laboratory_equipment'' then Some LABORATORY_EQUIPMENT
      else None)"

definition has_all_features :: "Room \<Rightarrow> RoomFeature list \<Rightarrow> bool" where
  "has_all_features r required_features = (\<forall>feature \<in> set required_features. feature \<in> set (r_features r))"

fun required_features_of :: "string list \<Rightarrow> RoomFeature list" where
  "required_features_of [] = []"
| "required_features_of (equipment # rest) =
     (case RoomFeature_of (lower equipment) of
        Some feature \<Rightarrow> feature # required_features_of rest
      | None \<Rightarrow> required_features_of rest)"

definition Room_is_suitable_for_course :: "Room \<Rightarrow> string \<Rightarrow> int \<Rightarrow> string list \<Rightarrow> bool" where
  "Room_is_suitable_for_course r course_type required_capacity required_equipment =
     (if \<not> r_is_available r then False
      else if r_capacity r < required_capacity then False
      else if lower course_type = ''laboratory'' \<and>
              r_room_type r \<notin> set [ROOM_LABORATORY, COMPUTER_LAB] then False
      else if required_equipment \<noteq> [] \<and>
              \<not> has_all_features r (required_features_of required_equipment) then False
      else True)"

definition Room_is_available_at :: "Room \<Rightarrow> string \<Rightarrow> bool" where
  "Room_is_available_at r time_slot_id =
     (r_is_available r \<and> time_slot_id \<notin> r_maintenance_slots r)"

definition get_suitability_score :: "Room \<Rightarrow> string \<Rightarrow> int \<Rightarrow> string list \<Rightarrow> real" where
  "get_suitability_score r course_type capacity_needed required_equipment =
     (if \<not> Room_is_suitable_for_course r course_type capacity_needed required_equipment then 0
      else
        let score0 = 0.5;
            score1 =
              (if lower course_type = ''laboratory'' \<and>
                  r_room_type r \<in> set [ROOM_LABORATORY, COMPUTER_LAB] then score0 + 0.3
               else if lower course_type = ''lecture'' \<and> r_room_type r = CLASSROOM then score0 + 0.3
               else score0);
            score2 =
              (if capacity_needed > 0 then
                 let capacity_ratio = real_of_int capacity_needed / real_of_int (r_capacity r)
                 in if 0.7 \<le> capacity_ratio \<and> capacity_ratio \<le> 0.9 then score1 + 0.2
                    else if capacity_ratio > 0.9 then score1 + 0.1
                    else score1
               else score1)
        in min score2 1)"

subsection \<open>TimeSlot\<close>

definition can_accommodate_duration :: "TimeSlot \<Rightarrow> int \<Rightarrow> bool" where
  "can_accommodate_duration ts required_minutes = (ts_duration_minutes ts \<ge> required_minutes)"

definition is_suitable_for_course_type :: "TimeSlot \<Rightarrow> string \<Rightarrow> bool" where
  "is_suitable_for_course_type ts course_type =
     (if \<not> ts_is_active ts then False
      else if ts_slot_type ts \<in> set [BREAK, LUNCH] then False
      else if lower course_type = ''laboratory'' then ts_slot_type ts \<in> set [REGULAR, EXTENDED]
      else ts_slot_type ts = REGULAR)"

definition get_time_preference_score :: "TimeSlot \<Rightarrow> real" where
  "get_time_preference_score ts =
     (let h = hour (ts_start_time ts)
      in if 9 \<le> h \<and> h < 12 then 1
         else if 12 \<le> h \<and> h < 14 then 0.8
         else if 14 \<le> h \<and> h < 17 then 0.6
         else if 8 \<le> h \<and> h < 9 then 0.4
         else 0.2)"

section \<open>BaseScheduler\<close>

text \<open>The four collections set by \<^verbatim>\<open>set_data\<close>.\<close>

record scheduler_data =
  courses :: "Course list"
  professors :: "Professor list"
  rooms :: "Room list"
  time_slots :: "TimeSlot list"

text \<open>
  \<^verbatim>\<open>preprocess_data\<close>: four stable sorts. Strings compare lexicographically by
  character code, tuples lexicographically by component.
\<close>

definition preprocess_data :: "scheduler_data \<Rightarrow> scheduler_data" where
  "preprocess_data d =
     \<lparr>courses = sort_key (\<lambda>c. (c_semester c, - c_credits c, c_code c)) (courses d),
      professors = sort_key (\<lambda>p. (p_department p, p_name p)) (professors d),
      rooms = sort_key (\<lambda>r. (RoomType_value (r_room_type r), - r_capacity r)) (rooms d),
      time_slots = sort_key (\<lambda>ts. (DayOfWeek_value (ts_day ts), ts_start_time ts)) (time_slots d)\<rparr>"

text \<open>
  \<^verbatim>\<open>next((x for x in xs if x.id == key), None)\<close>: the first entity with that id.
\<close>

definition find_by :: "('a \<Rightarrow> string) \<Rightarrow> 'a list \<Rightarrow> string \<Rightarrow> 'a option" where
  "find_by ident xs key = find (\<lambda>x. ident x = key) xs"

text \<open>
  The score of one assignment in \<^verbatim>\<open>calculate_schedule_quality\<close>. Entity objects are
  always truthy, so \<^verbatim>\<open>if time_slot:\<close> tests that the lookup found one.
\<close>

definition assignment_score :: "scheduler_data \<Rightarrow> Assignment \<Rightarrow> real" where
  "assignment_score d a =
     (let score0 = 1;
          time_slot = find_by ts_id (time_slots d) (a_time_slot_id a);
          score1 = (case time_slot of
                      Some ts \<Rightarrow> score0 + get_time_preference_score ts * 0.2
                    | None \<Rightarrow> score0);
          professor = find_by p_id (professors d) (a_professor_id a);
          score2 = (case (professor, time_slot) of
                      (Some p, Some ts) \<Rightarrow> score1 + get_preference_score p (a_time_slot_id a) * 0.3
                    | _ \<Rightarrow> score1);
          room = find_by r_id (rooms d) (a_room_id a);
          course = find_by c_id (courses d) (a_course_id a)
      in case (room, course) of
           (Some r, Some c) \<Rightarrow>
             score2 + get_suitability_score r (CourseType_value (c_course_type c)) (c_capacity c)
                        (c_required_equipment c) * 0.2
         | _ \<Rightarrow> score2)"

fun total_score_loop :: "scheduler_data \<Rightarrow> real \<Rightarrow> Assignment list \<Rightarrow> real" where
  "total_score_loop d total_score [] = total_score"
| "total_score_loop d total_score (a # as) =
     total_score_loop d (total_score + assignment_score d a) as"

definition calculate_schedule_quality :: "scheduler_data \<Rightarrow> Schedule \<Rightarrow> real" where
  "calculate_schedule_quality d schedule =
     (if s_assignments schedule = [] then 0
      else
        let total_assignments = length (s_assignments schedule);
            total_score = total_score_loop d 0 (s_assignments schedule)
        in if total_assignments > 0 then total_score / real total_assignments else 0)"

section \<open>ConstraintSatisfactionScheduler\<close>

text \<open>
  A CSP value is a triple (professor id, room id, time slot id). A domain is a Python
  set of triples, kept here as a list without repetitions in order of insertion;
  \<^verbatim>\<open>domains\<close> and a partial assignment are dictionaries keyed by course id.
  A lookup \<^verbatim>\<open>d[key]\<close> with a key that is not there raises \<^verbatim>\<open>KeyError\<close>.
\<close>

type_synonym triple = "string \<times> string \<times> string"
type_synonym domains = "(string \<times> triple list) list"
type_synonym solution = "(string \<times> triple) list"

record csp_config =
  use_arc_consistency :: bool
  use_forward_checking :: bool
  variable_ordering :: string
  value_ordering :: string

definition dict_get :: "('k \<times> 'v) list \<Rightarrow> 'k \<Rightarrow> error + 'v" where
  "dict_get d k = (case map_of d k of None \<Rightarrow> Inl KeyError | Some v \<Rightarrow> Inr v)"

fun dict_set :: "('k \<times> 'v) list \<Rightarrow> 'k \<Rightarrow> 'v \<Rightarrow> ('k \<times> 'v) list" where
  "dict_set [] k v = [(k, v)]"
| "dict_set ((k', v') # d) k v = (if k' = k then (k', v) # d else (k', v') # dict_set d k v)"

definition set_add :: "'a \<Rightarrow> 'a list \<Rightarrow> 'a list" where
  "set_add x xs = (if x \<in> set xs then xs else xs @ [x])"

subsection \<open>Initial domains\<close>

definition can_professor_teach_course :: "Professor \<Rightarrow> Course \<Rightarrow> bool" where
  "can_professor_teach_course professor course =
     (p_is_active professor \<and> p_department professor = c_branch course \<and>
      can_teach_course professor (c_code course) [])"

definition can_room_host_course :: "Room \<Rightarrow> Course \<Rightarrow> bool" where
  "can_room_host_course room course =
     Room_is_suitable_for_course room (CourseType_value (c_course_type course))
       (c_capacity course) (c_required_equipment course)"

definition can_schedule_at_time :: "Course \<Rightarrow> Professor \<Rightarrow> Room \<Rightarrow> TimeSlot \<Rightarrow> bool" where
  "can_schedule_at_time course professor room time_slot =
     (is_suitable_for_course_type time_slot (CourseType_value (c_course_type course)) \<and>
      can_accommodate_duration time_slot (c_duration course) \<and>
      Professor_is_available_at professor (ts_id time_slot) \<and>
      Room_is_available_at room (ts_id time_slot))"

text \<open>The three nested loops of \<^verbatim>\<open>_initialize_domains\<close>, innermost first.\<close>

fun time_slot_loop :: "Course \<Rightarrow> Professor \<Rightarrow> Room \<Rightarrow> TimeSlot list \<Rightarrow> triple list
    \<Rightarrow> triple list" where
  "time_slot_loop course professor room [] domain = domain"
| "time_slot_loop course professor room (time_slot # rest) domain =
     time_slot_loop course professor room rest
       (if can_schedule_at_time course professor room time_slot
        then set_add (p_id professor, r_id room, ts_id time_slot) domain
        else domain)"

fun room_loop :: "scheduler_data \<Rightarrow> Course \<Rightarrow> Professor \<Rightarrow> Room list \<Rightarrow> triple list
    \<Rightarrow> triple list" where
  "room_loop d course professor [] domain = domain"
| "room_loop d course professor (room # rest) domain =
     room_loop d course professor rest
       (if can_room_host_course room course
        then time_slot_loop course professor room (time_slots d) domain
        else domain)"

fun professor_loop :: "scheduler_data \<Rightarrow> Course \<Rightarrow> Professor list \<Rightarrow> triple list
    \<Rightarrow> triple list" where
  "professor_loop d course [] domain = domain"
| "professor_loop d course (professor # rest) domain =
     professor_loop d course rest
       (if can_professor_teach_course professor course
        then room_loop d course professor (rooms d) domain
        else domain)"

fun course_loop :: "scheduler_data \<Rightarrow> Course list \<Rightarrow> domains \<Rightarrow> domains" where
  "course_loop d [] domains = domains"
| "course_loop d (course # rest) domains =
     course_loop d rest (dict_set domains (c_id course) (professor_loop d course (professors d) []))"

definition initialize_domains :: "scheduler_data \<Rightarrow> domains" where
  "initialize_domains d = course_loop d (courses d) []"

subsection \<open>Arc consistency\<close>

definition assignments_conflict :: "triple \<Rightarrow> triple \<Rightarrow> bool" where
  "assignments_conflict assignment1 assignment2 =
     (case assignment1 of (prof1_id, room1_id, time1_id) \<Rightarrow>
      case assignment2 of (prof2_id, room2_id, time2_id) \<Rightarrow>
        if time1_id = time2_id then prof1_id = prof2_id \<or> room1_id = room2_id else False)"

text \<open>The inner loop of \<^verbatim>\<open>_revise_domain\<close>, which stops at the first compatible value.\<close>

fun has_valid_assignment :: "triple \<Rightarrow> triple list \<Rightarrow> bool" where
  "has_valid_assignment assignment1 [] = False"
| "has_valid_assignment assignment1 (assignment2 # rest) =
     (if \<not> assignments_conflict assignment1 assignment2 then True
      else has_valid_assignment assignment1 rest)"

text \<open>
  \<^verbatim>\<open>_revise_domain\<close> returns the flag and changes \<^verbatim>\<open>domains[course1_id]\<close> in place;
  here it returns the changed dictionary with the flag. The domain of the second course
  is read only inside the loop over the first domain, so not at all when that is empty.
\<close>

definition revise_domain :: "domains \<Rightarrow> string \<Rightarrow> string \<Rightarrow> error + (domains \<times> bool)" where
  "revise_domain domains course1_id course2_id =
     (case dict_get domains course1_id of
        Inl e \<Rightarrow> Inl e
      | Inr domain1 \<Rightarrow>
          if domain1 = [] then Inr (domains, False)
          else
            (case dict_get domains course2_id of
               Inl e \<Rightarrow> Inl e
             | Inr domain2 \<Rightarrow>
                 let to_remove =
                       filter (\<lambda>assignment1. \<not> has_valid_assignment assignment1 domain2) domain1;
                     revised = (to_remove \<noteq> [])
                 in Inr (dict_set domains course1_id
                           (filter (\<lambda>a. a \<notin> set to_remove) domain1), revised)))"

fun initial_arcs :: "string list \<Rightarrow> (string \<times> string) list" where
  "initial_arcs [] = []"
| "initial_arcs (ci # rest) = concat (map (\<lambda>cj. [(ci, cj), (cj, ci)]) rest) @ initial_arcs rest"

definition affected_arcs :: "string list \<Rightarrow> string \<Rightarrow> string \<Rightarrow> (string \<times> string) list" where
  "affected_arcs course_ids course1_id course2_id =
     map (\<lambda>course3_id. (course3_id, course1_id))
       (filter (\<lambda>course3_id. course3_id \<noteq> course1_id \<and> course3_id \<noteq> course2_id) course_ids)"

definition total_size :: "domains \<Rightarrow> nat" where
  "total_size domains = sum_list (map (\<lambda>p. length (snd p)) domains)"

lemma dict_set_total_size:
  "map_of d k = Some old \<Longrightarrow>
     total_size (dict_set d k v) + length old = total_size d + length v"
  by (induction d) (auto simp: total_size_def)

lemma length_filter_removed:
  assumes "filter P xs \<noteq> []"
  shows "length (filter (\<lambda>a. a \<notin> set (filter P xs)) xs) < length xs"
proof -
  from assms obtain x where "x \<in> set xs" "P x"
    by (auto simp: filter_empty_conv)
  then have "x \<in> set xs \<and> \<not> (x \<notin> set (filter P xs))" by simp
  then show ?thesis by (metis length_filter_less)
qed

lemma revise_domain_size:
  assumes "revise_domain domains c1 c2 = Inr (domains', revised)"
  shows "if revised then total_size domains' < total_size domains
         else total_size domains' = total_size domains"
proof -
  from assms obtain d1 where d1: "map_of domains c1 = Some d1"
    by (auto simp: revise_domain_def dict_get_def split: option.splits)
  show ?thesis
  proof (cases "d1 = []")
    case True
    with assms d1 show ?thesis by (simp add: revise_domain_def dict_get_def)
  next
    case False
    from assms d1 False obtain d2 where d2: "map_of domains c2 = Some d2"
      by (auto simp: revise_domain_def dict_get_def split: option.splits)
    define rm where "rm = filter (\<lambda>a. \<not> has_valid_assignment a d2) d1"
    have eq: "domains' = dict_set domains c1 (filter (\<lambda>a. a \<notin> set rm) d1)" "revised = (rm \<noteq> [])"
      using assms d1 d2 False by (simp_all add: revise_domain_def dict_get_def Let_def rm_def)
    have sz: "total_size domains' + length d1 =
        total_size domains + length (filter (\<lambda>a. a \<notin> set rm) d1)"
      unfolding eq by (rule dict_set_total_size [OF d1])
    show ?thesis
    proof (cases "rm = []")
      case True
      with sz eq show ?thesis by simp
    next
      case False
      then have "length (filter (\<lambda>a. a \<notin> set rm) d1) < length d1"
        unfolding rm_def by (rule length_filter_removed)
      with sz eq False show ?thesis by simp
    qed
  qed
qed

lemma revise_domain_shrinks:
  "revise_domain domains c1 c2 = Inr (domains', True) \<Longrightarrow> total_size domains' < total_size domains"
  using revise_domain_size [of domains c1 c2 domains' True] by simp

lemma revise_domain_keeps:
  "revise_domain domains c1 c2 = Inr (domains', False) \<Longrightarrow> total_size domains' = total_size domains"
  using revise_domain_size [of domains c1 c2 domains' False] by simp

text \<open>
  The work queue of \<^verbatim>\<open>_apply_arc_consistency\<close>. A revision that removes something
  shrinks the domains, one that removes nothing shortens the queue: the loop ends.
\<close>

function arc_consistency_loop :: "string list \<Rightarrow> (string \<times> string) list \<Rightarrow> domains
    \<Rightarrow> error + domains" where
  "arc_consistency_loop course_ids [] domains = Inr domains"
| "arc_consistency_loop course_ids ((course1_id, course2_id) # queue) domains =
     (case revise_domain domains course1_id course2_id of
        Inl e \<Rightarrow> Inl e
      | Inr (domains', revised) \<Rightarrow>
          if revised then
            (case dict_get domains' course1_id of
               Inl e \<Rightarrow> Inl e
             | Inr domain1 \<Rightarrow>
                 if domain1 = [] then Inr domains'
                 else arc_consistency_loop course_ids
                        (queue @ affected_arcs course_ids course1_id course2_id) domains')
          else arc_consistency_loop course_ids queue domains')"
  by pat_completeness auto
termination
proof (relation "measures [\<lambda>(ids, queue, domains). total_size domains,
                           \<lambda>(ids, queue, domains). length queue]", goal_cases)
  case 1
  show ?case by simp
next
  case 2
  then show ?case by (auto dest: revise_domain_shrinks)
next
  case 3
  then show ?case by (auto dest: revise_domain_keeps)
qed

definition apply_arc_consistency :: "domains \<Rightarrow> error + domains" where
  "apply_arc_consistency domains =
     (let course_ids = map fst domains
      in arc_consistency_loop course_ids (initial_arcs course_ids) domains)"

subsection \<open>Backtracking search\<close>

fun domain_sizes :: "domains \<Rightarrow> string list \<Rightarrow> error + (string \<times> nat) list" where
  "domain_sizes domains [] = Inr []"
| "domain_sizes domains (course_id # rest) =
     (case dict_get domains course_id of
        Inl e \<Rightarrow> Inl e
      | Inr domain \<Rightarrow>
          (case domain_sizes domains rest of
             Inl e \<Rightarrow> Inl e
           | Inr sizes \<Rightarrow> Inr ((course_id, length domain) # sizes)))"

text \<open>\<^verbatim>\<open>min(xs, key=...)\<close>: the first element whose key is least.\<close>

fun first_min :: "string \<times> nat \<Rightarrow> (string \<times> nat) list \<Rightarrow> string" where
  "first_min (best, n) [] = best"
| "first_min (best, n) ((course_id, m) # rest) =
     (if m < n then first_min (course_id, m) rest else first_min (best, n) rest)"

definition select_unassigned_variable :: "csp_config \<Rightarrow> solution \<Rightarrow> domains
    \<Rightarrow> error + string option" where
  "select_unassigned_variable cfg assignment domains =
     (let unassigned =
            filter (\<lambda>course_id. course_id \<notin> set (map fst assignment)) (map fst domains)
      in case unassigned of
           [] \<Rightarrow> Inr None
         | first # others \<Rightarrow>
             if variable_ordering cfg = ''mrv'' then
               (case domain_sizes domains unassigned of
                  Inl e \<Rightarrow> Inl e
                | Inr [] \<Rightarrow> Inl ValueError
                | Inr (smallest # sizes) \<Rightarrow> Inr (Some (first_min smallest sizes)))
             else Inr (Some first))"

definition count_conflicts :: "string \<Rightarrow> triple \<Rightarrow> domains \<Rightarrow> int" where
  "count_conflicts course_id val domains =
     sum_list (map (\<lambda>(other_course_id, other_domain).
                      if other_course_id = course_id then 0
                      else int (length (filter (assignments_conflict val) other_domain)))
                domains)"

text \<open>
  The order in which Python iterates over a set of strings is not fixed by the language
  (it follows the hashes). \<^verbatim>\<open>list(domains[course_id])\<close> is therefore the parameter
  \<open>list_of\<close>, an arbitrary function of the stored domain. \<^verbatim>\<open>sorted\<close> is stable, as
  \<open>sort_key\<close> is.
\<close>

definition order_domain_values :: "csp_config \<Rightarrow> (triple list \<Rightarrow> triple list) \<Rightarrow> string
    \<Rightarrow> domains \<Rightarrow> error + triple list" where
  "order_domain_values cfg list_of course_id domains =
     (case dict_get domains course_id of
        Inl e \<Rightarrow> Inl e
      | Inr domain \<Rightarrow>
          let vals = list_of domain
          in if value_ordering cfg = ''lcv''
             then Inr (sort_key (\<lambda>val. count_conflicts course_id val domains) vals)
             else Inr vals)"

fun is_consistent :: "string \<Rightarrow> triple \<Rightarrow> solution \<Rightarrow> bool" where
  "is_consistent course_id val [] = True"
| "is_consistent course_id val ((assigned_course_id, assigned_value) # rest) =
     (if assignments_conflict val assigned_value then False
      else is_consistent course_id val rest)"

definition forward_check :: "string \<Rightarrow> triple \<Rightarrow> domains \<Rightarrow> domains" where
  "forward_check assigned_course_id assigned_value domains =
     map (\<lambda>(course_id, domain).
            if course_id = assigned_course_id then (course_id, [assigned_value])
            else (course_id, filter (\<lambda>val. \<not> assignments_conflict assigned_value val) domain))
       domains"

text \<open>
  The loop over the ordered values: the first attempt that returns a solution ends it,
  an attempt that returns \<^verbatim>\<open>None\<close> (or is skipped) goes on to the next value.
\<close>

fun try_values :: "(triple \<Rightarrow> error + solution option) \<Rightarrow> triple list
    \<Rightarrow> error + solution option" where
  "try_values attempt [] = Inr None"
| "try_values attempt (val # rest) =
     (case attempt val of
        Inl e \<Rightarrow> Inl e
      | Inr (Some result) \<Rightarrow> Inr (Some result)
      | Inr None \<Rightarrow> try_values attempt rest)"

lemma try_values_cong [fundef_cong]:
  "vals = vals' \<Longrightarrow> (\<And>v. v \<in> set vals' \<Longrightarrow> attempt v = attempt' v) \<Longrightarrow>
     try_values attempt vals = try_values attempt' vals'"
  by (induction vals' arbitrary: vals) (auto split: sum.splits option.splits)

lemma domain_sizes_keys: "domain_sizes domains ids = Inr sizes \<Longrightarrow> map fst sizes = ids"
  by (induction ids arbitrary: sizes) (auto split: sum.splits)

lemma first_min_mem: "first_min k ks \<in> fst ` set (k # ks)"
  by (induction k ks rule: first_min.induct) auto

lemma select_unassigned_variable_mem:
  assumes "select_unassigned_variable cfg assignment domains = Inr (Some course_id)"
  shows "course_id \<in> set (map fst domains) \<and> course_id \<notin> set (map fst assignment)"
proof -
  define unassigned where
    "unassigned = filter (\<lambda>c. c \<notin> set (map fst assignment)) (map fst domains)"
  have "course_id \<in> set unassigned"
  proof (cases "variable_ordering cfg = ''mrv''")
    case True
    with assms obtain k ks where sz: "domain_sizes domains unassigned = Inr (k # ks)"
      and c: "course_id = first_min k ks"
      by (auto simp: select_unassigned_variable_def unassigned_def Let_def
          split: list.splits sum.splits)
    have "course_id \<in> fst ` set (k # ks)" unfolding c by (rule first_min_mem)
    also have "fst ` set (k # ks) = set (map fst (k # ks))" by simp
    also have "\<dots> = set unassigned" using domain_sizes_keys [OF sz] by simp
    finally show ?thesis .
  next
    case False
    with assms obtain others where "unassigned = course_id # others"
      by (auto simp: select_unassigned_variable_def unassigned_def Let_def split: list.splits)
    then show ?thesis by simp
  qed
  then show ?thesis by (simp add: unassigned_def)
qed

lemma dict_set_keys: "set (map fst (dict_set d k v)) = insert k (set (map fst d))"
proof (induction d)
  case Nil
  show ?case by simp
next
  case (Cons p d)
  obtain k' v' where p: "p = (k', v')" by (cases p)
  show ?case
  proof (cases "k' = k")
    case True
    then show ?thesis by (auto simp: p)
  next
    case False
    have "set (map fst (dict_set (p # d) k v)) = insert k' (set (map fst (dict_set d k v)))"
      using False by (simp add: p)
    also have "\<dots> = insert k (set (map fst (p # d)))"
      unfolding Cons.IH by (auto simp: p)
    finally show ?thesis .
  qed
qed

lemma forward_check_keys: "map fst (forward_check c v domains) = map fst domains"
  by (induction domains) (auto simp: forward_check_def)

definition unassigned_count :: "solution \<Rightarrow> domains \<Rightarrow> nat" where
  "unassigned_count assignment domains =
     length (filter (\<lambda>c. c \<notin> set (map fst assignment)) (map fst domains))"

lemma unassigned_count_less:
  assumes "c \<in> set (map fst domains)" "c \<notin> set (map fst assignment)"
    and "map fst domains' = map fst domains"
  shows "unassigned_count (dict_set assignment c v) domains' < unassigned_count assignment domains"
proof -
  let ?free = "filter (\<lambda>x. x \<notin> set (map fst assignment)) (map fst domains)"
  have "c \<in> set ?free" using assms(1,2) by simp
  then have "length (filter (\<lambda>x. x \<noteq> c) ?free) < length ?free"
    by (intro length_filter_less [of c]) simp_all
  moreover have "filter (\<lambda>x. x \<noteq> c) ?free =
      filter (\<lambda>x. x \<notin> insert c (set (map fst assignment))) (map fst domains)"
    by (simp add: conj_commute)
  ultimately have "length (filter (\<lambda>x. x \<notin> insert c (set (map fst assignment))) (map fst domains))
      < length ?free"
    by (simp only:)
  then show ?thesis
    unfolding unassigned_count_def dict_set_keys assms(3) .
qed

text \<open>
  \<^verbatim>\<open>_backtrack_search\<close>; \<open>n_courses\<close> is \<^verbatim>\<open>len(self.courses)\<close>. Every recursive call
  has assigned one more course of \<^verbatim>\<open>domains\<close>, which bounds the depth.
\<close>

function backtrack_search :: "csp_config \<Rightarrow> (triple list \<Rightarrow> triple list) \<Rightarrow> nat \<Rightarrow> solution
    \<Rightarrow> domains \<Rightarrow> error + solution option" where
  "backtrack_search cfg list_of n_courses assignment domains =
     (if length assignment = n_courses then Inr (Some assignment)
      else case select_unassigned_variable cfg assignment domains of
        Inl e \<Rightarrow> Inl e
      | Inr None \<Rightarrow> Inr (Some assignment)
      | Inr (Some course_id) \<Rightarrow>
          (case order_domain_values cfg list_of course_id domains of
             Inl e \<Rightarrow> Inl e
           | Inr vals \<Rightarrow>
               try_values
                 (\<lambda>val.
                    if is_consistent course_id val assignment then
                      let new_assignment = dict_set assignment course_id val
                      in if use_forward_checking cfg then
                           let new_domains = forward_check course_id val domains
                           in if \<exists>domain \<in> set (map snd new_domains). domain = [] then Inr None
                              else backtrack_search cfg list_of n_courses new_assignment new_domains
                         else backtrack_search cfg list_of n_courses new_assignment domains
                    else Inr None)
                 vals))"
  by pat_completeness auto
termination
proof (relation "measure (\<lambda>(cfg, list_of, n, assignment, domains).
                            unassigned_count assignment domains)", goal_cases)
  case 1
  show ?case by simp
next
  case 2
  then show ?case
    by (auto dest!: select_unassigned_variable_mem
        intro!: unassigned_count_less forward_check_keys)
next
  case 3
  then show ?case
    by (auto dest!: select_unassigned_variable_mem intro!: unassigned_count_less)
qed

declare backtrack_search.simps [simp del]

fun solution_to_assignments :: "solution \<Rightarrow> Assignment list" where
  "solution_to_assignments [] = []"
| "solution_to_assignments ((course_id, (professor_id, room_id, time_slot_id)) # rest) =
     \<lparr>a_id = course_id @ ''_'' @ professor_id @ ''_'' @ room_id @ ''_'' @ time_slot_id,
      a_course_id = course_id, a_professor_id = professor_id, a_room_id = room_id,
      a_time_slot_id = time_slot_id, a_session_number = 1\<rparr>
     # solution_to_assignments rest"

definition solution_to_schedule :: "solution \<Rightarrow> Schedule" where
  "solution_to_schedule solution =
     \<lparr>s_id = ''csp_solution'', s_name = ''CSP Generated Schedule'',
      s_assignments = solution_to_assignments solution,
      s_algorithm_used = Some ''ConstraintSatisfactionScheduler''\<rparr>"

definition failed_schedule :: Schedule where
  "failed_schedule =
     \<lparr>s_id = ''failed'', s_name = ''No Solution Found'', s_assignments = [],
      s_algorithm_used = None\<rparr>"

text \<open>
  The domains the search starts from: the data sorted, the initial domains, and arc
  consistency when it is switched on.
\<close>

definition search_domains :: "csp_config \<Rightarrow> scheduler_data \<Rightarrow> error + domains" where
  "search_domains cfg d =
     (let domains = initialize_domains (preprocess_data d)
      in if use_arc_consistency cfg then apply_arc_consistency domains else Inr domains)"

text \<open>
  \<^verbatim>\<open>generate_schedule\<close>. \<^verbatim>\<open>if solution:\<close> is false for \<^verbatim>\<open>None\<close> and for the empty
  dictionary alike.
\<close>

definition generate_schedule :: "csp_config \<Rightarrow> (triple list \<Rightarrow> triple list) \<Rightarrow> scheduler_data
    \<Rightarrow> error + Schedule" where
  "generate_schedule cfg list_of d =
     (case search_domains cfg d of
        Inl e \<Rightarrow> Inl e
      | Inr domains \<Rightarrow>
          (case backtrack_search cfg list_of (length (courses (preprocess_data d))) [] domains of
             Inl e \<Rightarrow> Inl e
           | Inr None \<Rightarrow> Inr failed_schedule
           | Inr (Some solution) \<Rightarrow>
               if solution \<noteq> [] then Inr (solution_to_schedule solution)
               else Inr failed_schedule))"

section \<open>GeneticScheduler\<close>

text \<open>
  The module \<^verbatim>\<open>random\<close> is a source of numbers outside the program: an infinite
  sequence of naturals, of which every draw takes the next and reduces it to the range
  asked for. A function that draws takes the source and returns what is left of it.
\<close>

type_synonym rng = "nat \<Rightarrow> nat"

definition next_raw :: "rng \<Rightarrow> nat \<times> rng" where
  "next_raw g = (g 0, \<lambda>i. g (Suc i))"

definition random_choice :: "'a list \<Rightarrow> rng \<Rightarrow> error + ('a \<times> rng)" where
  "random_choice xs g =
     (if xs = [] then Inl IndexError
      else case next_raw g of (r, g') \<Rightarrow> Inr (xs ! (r mod length xs), g'))"

text \<open>\<^verbatim>\<open>random.random()\<close>: a multiple of \<open>2\<^sup>-\<^sup>5\<^sup>3\<close> in [0, 1).\<close>

definition random_random :: "rng \<Rightarrow> real \<times> rng" where
  "random_random g = (case next_raw g of (r, g') \<Rightarrow> (real (r mod 2 ^ 53) / 2 ^ 53, g'))"

definition random_randint :: "int \<Rightarrow> int \<Rightarrow> rng \<Rightarrow> error + (int \<times> rng)" where
  "random_randint a b g =
     (if b < a then Inl ValueError
      else case next_raw g of (r, g') \<Rightarrow> Inr (a + int r mod (b - a + 1), g'))"

fun sample_loop :: "nat list \<Rightarrow> nat \<Rightarrow> rng \<Rightarrow> nat list \<times> rng" where
  "sample_loop pool 0 g = ([], g)"
| "sample_loop [] (Suc k) g = ([], g)"
| "sample_loop (x # xs) (Suc k) g =
     (case next_raw g of (r, g') \<Rightarrow>
        let i = r mod length (x # xs)
        in case sample_loop (take i (x # xs) @ drop (Suc i) (x # xs)) k g' of
             (rest, g'') \<Rightarrow> ((x # xs) ! i # rest, g''))"

text \<open>\<^verbatim>\<open>random.sample(range(n), k)\<close>: \<open>k\<close> different indices below \<open>n\<close>.\<close>

definition random_sample_range :: "nat \<Rightarrow> nat \<Rightarrow> rng \<Rightarrow> error + (nat list \<times> rng)" where
  "random_sample_range n k g =
     (if n < k then Inl ValueError else Inr (sample_loop [0..<n] k g))"

text \<open>\<^verbatim>\<open>str(n)\<close> for a natural number, and the slice \<^verbatim>\<open>xs[:k]\<close>.\<close>

function str_of_nat :: "nat \<Rightarrow> string" where
  "str_of_nat n =
     (if n < 10 then [char_of (48 + n)]
      else str_of_nat (n div 10) @ [char_of (48 + n mod 10)])"
  by pat_completeness auto
termination
  by (relation "measure (\<lambda>n. n)") auto

declare str_of_nat.simps [simp del]

definition slice_to :: "int \<Rightarrow> 'a list \<Rightarrow> 'a list" where
  "slice_to k xs = (if 0 \<le> k then take (nat k) xs else take (nat (int (length xs) + k)) xs)"

record ga_config =
  population_size :: int
  generations :: int
  mutation_rate :: real
  crossover_rate :: real
  elite_size :: int

definition create_random_assignment :: "scheduler_data \<Rightarrow> Course \<Rightarrow> rng
    \<Rightarrow> error + (Assignment option \<times> rng)" where
  "create_random_assignment d course g =
     (let available_professors = filter (\<lambda>p. p_department p = c_branch course) (professors d);
          available_rooms =
            filter (\<lambda>r. Room_is_suitable_for_course r (CourseType_value (c_course_type course))
                      (c_capacity course) (c_required_equipment course)) (rooms d);
          available_time_slots = filter (\<lambda>ts. ts_is_active ts) (time_slots d)
      in if \<not> (available_professors \<noteq> [] \<and> available_rooms \<noteq> [] \<and> available_time_slots \<noteq> [])
         then Inr (None, g)
         else
           (case random_choice available_professors g of
              Inl e \<Rightarrow> Inl e
            | Inr (professor, g1) \<Rightarrow>
           (case random_choice available_rooms g1 of
              Inl e \<Rightarrow> Inl e
            | Inr (room, g2) \<Rightarrow>
           (case random_choice available_time_slots g2 of
              Inl e \<Rightarrow> Inl e
            | Inr (time_slot, g3) \<Rightarrow>
                Inr (Some \<lparr>a_id = c_id course @ ''_'' @ p_id professor @ ''_'' @ r_id room @ ''_''
                                   @ ts_id time_slot,
                           a_course_id = c_id course, a_professor_id = p_id professor,
                           a_room_id = r_id room, a_time_slot_id = ts_id time_slot,
                           a_session_number = 1\<rparr>, g3)))))"

fun random_assignments :: "scheduler_data \<Rightarrow> Course list \<Rightarrow> Assignment list \<Rightarrow> rng
    \<Rightarrow> error + (Assignment list \<times> rng)" where
  "random_assignments d [] assignments g = Inr (assignments, g)"
| "random_assignments d (course # rest) assignments g =
     (case create_random_assignment d course g of
        Inl e \<Rightarrow> Inl e
      | Inr (None, g') \<Rightarrow> random_assignments d rest assignments g'
      | Inr (Some assignment, g') \<Rightarrow> random_assignments d rest (assignments @ [assignment]) g')"

definition create_random_schedule :: "scheduler_data \<Rightarrow> string \<Rightarrow> rng
    \<Rightarrow> error + (Schedule \<times> rng)" where
  "create_random_schedule d schedule_id g =
     (case random_assignments d (courses d) [] g of
        Inl e \<Rightarrow> Inl e
      | Inr (assignments, g') \<Rightarrow>
          Inr (\<lparr>s_id = schedule_id, s_name = ''Random Schedule '' @ schedule_id,
                s_assignments = assignments, s_algorithm_used = None\<rparr>, g'))"

fun population_loop :: "scheduler_data \<Rightarrow> nat list \<Rightarrow> Schedule list \<Rightarrow> rng
    \<Rightarrow> error + (Schedule list \<times> rng)" where
  "population_loop d [] population g = Inr (population, g)"
| "population_loop d (i # rest) population g =
     (case create_random_schedule d (''individual_'' @ str_of_nat i) g of
        Inl e \<Rightarrow> Inl e
      | Inr (schedule, g') \<Rightarrow> population_loop d rest (population @ [schedule]) g')"

definition initialize_population :: "ga_config \<Rightarrow> scheduler_data \<Rightarrow> rng
    \<Rightarrow> error + (Schedule list \<times> rng)" where
  "initialize_population cfg d g = population_loop d [0..<nat (population_size cfg)] [] g"

definition calculate_fitness :: "scheduler_data \<Rightarrow> Schedule \<Rightarrow> real" where
  "calculate_fitness d schedule =
     (if s_assignments schedule = [] then 0
      else
        let fitness = calculate_schedule_quality d schedule;
            conflicts = get_conflict_count schedule
        in fitness - real_of_int (conflicts * 1000))"

text \<open>
  \<^verbatim>\<open>max(indices, key=...)\<close>: the first index whose score is greatest;
  \<^verbatim>\<open>ValueError\<close> without indices.
\<close>

fun first_max :: "real list \<Rightarrow> nat \<Rightarrow> nat list \<Rightarrow> nat" where
  "first_max fitness_scores best [] = best"
| "first_max fitness_scores best (i # rest) =
     (if fitness_scores ! i > fitness_scores ! best then first_max fitness_scores i rest
      else first_max fitness_scores best rest)"

definition tournament_selection :: "Schedule list \<Rightarrow> real list \<Rightarrow> rng
    \<Rightarrow> error + (Schedule \<times> rng)" where
  "tournament_selection population fitness_scores g =
     (let tournament_size = min 3 (length population)
      in case random_sample_range (length population) tournament_size g of
           Inl e \<Rightarrow> Inl e
         | Inr (tournament_indices, g') \<Rightarrow>
             (case tournament_indices of
                [] \<Rightarrow> Inl ValueError
              | i # rest \<Rightarrow> Inr (population ! first_max fitness_scores i rest, g')))"

definition crossover :: "Schedule \<Rightarrow> Schedule \<Rightarrow> rng \<Rightarrow> error + (Schedule \<times> rng)" where
  "crossover parent1 parent2 g =
     (let crossover_point = length (s_assignments parent1) div 2;
          child_assignments =
            take crossover_point (s_assignments parent1) @
            drop crossover_point (s_assignments parent2)
      in case random_randint 1000 9999 g of
           Inl e \<Rightarrow> Inl e
         | Inr (n, g') \<Rightarrow>
             Inr (\<lparr>s_id = ''child_'' @ str_of_nat (nat n), s_name = ''Crossover Child'',
                   s_assignments = child_assignments, s_algorithm_used = None\<rparr>, g'))"

text \<open>
  The middle of \<^verbatim>\<open>_mutate\<close>: the copy of the assignment list, with the assignment at
  \<^verbatim>\<open>mutation_idx\<close> replaced when its course is found and a new assignment can be made.
\<close>

definition reassign :: "scheduler_data \<Rightarrow> Assignment list \<Rightarrow> nat \<Rightarrow> rng
    \<Rightarrow> error + (Assignment list \<times> rng)" where
  "reassign d mutated_assignments mutation_idx g =
     (let assignment = mutated_assignments ! mutation_idx
      in case find_by c_id (courses d) (a_course_id assignment) of
           None \<Rightarrow> Inr (mutated_assignments, g)
         | Some course \<Rightarrow>
             (case create_random_assignment d course g of
                Inl e \<Rightarrow> Inl e
              | Inr (None, g') \<Rightarrow> Inr (mutated_assignments, g')
              | Inr (Some new_assignment, g') \<Rightarrow>
                  Inr (mutated_assignments[mutation_idx := new_assignment], g')))"

definition mutate :: "scheduler_data \<Rightarrow> Schedule \<Rightarrow> rng \<Rightarrow> error + (Schedule \<times> rng)" where
  "mutate d schedule g =
     (if s_assignments schedule = [] then Inr (schedule, g)
      else
        (case random_randint 0 (int (length (s_assignments schedule)) - 1) g of
           Inl e \<Rightarrow> Inl e
         | Inr (mutation_idx, g1) \<Rightarrow>
             (case reassign d (s_assignments schedule) (nat mutation_idx) g1 of
                Inl e \<Rightarrow> Inl e
              | Inr (mutated_assignments, g2) \<Rightarrow>
                  (case random_randint 1000 9999 g2 of
                     Inl e \<Rightarrow> Inl e
                   | Inr (n, g3) \<Rightarrow>
                       Inr (\<lparr>s_id = ''mutant_'' @ str_of_nat (nat n),
                             s_name = ''Mutated Schedule'',
                             s_assignments = mutated_assignments,
                             s_algorithm_used = None\<rparr>, g3)))))"

text \<open>One pass of the \<^verbatim>\<open>while\<close> loop of \<^verbatim>\<open>_select_and_reproduce\<close>.\<close>

definition make_child :: "ga_config \<Rightarrow> scheduler_data \<Rightarrow> Schedule list \<Rightarrow> real list \<Rightarrow> rng
    \<Rightarrow> error + (Schedule \<times> rng)" where
  "make_child cfg d population fitness_scores g =
     (case tournament_selection population fitness_scores g of
        Inl e \<Rightarrow> Inl e
      | Inr (parent1, g1) \<Rightarrow>
     (case tournament_selection population fitness_scores g1 of
        Inl e \<Rightarrow> Inl e
      | Inr (parent2, g2) \<Rightarrow>
     (case random_random g2 of (u, g3) \<Rightarrow>
     (case (if u < crossover_rate cfg then crossover parent1 parent2 g3 else Inr (parent1, g3)) of
        Inl e \<Rightarrow> Inl e
      | Inr (child, g4) \<Rightarrow>
     (case random_random g4 of (v, g5) \<Rightarrow>
        if v < mutation_rate cfg then mutate d child g5 else Inr (child, g5))))))"

function reproduce_loop :: "ga_config \<Rightarrow> scheduler_data \<Rightarrow> Schedule list \<Rightarrow> real list
    \<Rightarrow> Schedule list \<Rightarrow> rng \<Rightarrow> error + (Schedule list \<times> rng)" where
  "reproduce_loop cfg d population fitness_scores new_population g =
     (if int (length new_population) < population_size cfg then
        (case make_child cfg d population fitness_scores g of
           Inl e \<Rightarrow> Inl e
         | Inr (child, g') \<Rightarrow>
             reproduce_loop cfg d population fitness_scores (new_population @ [child]) g')
      else Inr (new_population, g))"
  by pat_completeness auto
termination
  by (relation "measure (\<lambda>(cfg, d, population, fitness_scores, new_population, g).
                           nat (population_size cfg - int (length new_population)))") auto

declare reproduce_loop.simps [simp del]

text \<open>
  \<^verbatim>\<open>sorted(..., reverse=True)\<close> keeps the order of equal keys, as a stable sort by the
  negated key does.
\<close>

definition select_and_reproduce :: "ga_config \<Rightarrow> scheduler_data \<Rightarrow> Schedule list \<Rightarrow> real list
    \<Rightarrow> rng \<Rightarrow> error + (Schedule list \<times> rng)" where
  "select_and_reproduce cfg d population fitness_scores g =
     (let elite_indices =
            slice_to (elite_size cfg)
              (sort_key (\<lambda>i. - (fitness_scores ! i)) [0..<length fitness_scores]);
          new_population = map (\<lambda>idx. population ! idx) elite_indices
      in case reproduce_loop cfg d population fitness_scores new_population g of
           Inl e \<Rightarrow> Inl e
         | Inr (new_population', g') \<Rightarrow>
             Inr (slice_to (population_size cfg) new_population', g'))"

text \<open>
  The state of the generational loop. \<^verbatim>\<open>best_fitness\<close> starts at
  \<^verbatim>\<open>float('-inf')\<close>, below every score.
\<close>

datatype fitness = NegInf | Finite real

fun fitness_less :: "fitness \<Rightarrow> fitness \<Rightarrow> bool" where
  "fitness_less NegInf NegInf = False"
| "fitness_less NegInf (Finite y) = True"
| "fitness_less (Finite x) NegInf = False"
| "fitness_less (Finite x) (Finite y) = (x < y)"

fun fitness_le :: "fitness \<Rightarrow> fitness \<Rightarrow> bool" where
  "fitness_le NegInf b = True"
| "fitness_le (Finite x) NegInf = False"
| "fitness_le (Finite x) (Finite y) = (x \<le> y)"

record ga_state =
  population :: "Schedule list"
  best_schedule :: "Schedule option"
  best_fitness :: fitness
  random_state :: rng

fun max_list :: "real \<Rightarrow> real list \<Rightarrow> real" where
  "max_list m [] = m"
| "max_list m (x # xs) = max_list (if x > m then x else m) xs"

fun index_of :: "real \<Rightarrow> real list \<Rightarrow> nat" where
  "index_of x [] = 0"
| "index_of x (y # ys) = (if y = x then 0 else Suc (index_of x ys))"

text \<open>
  The body of the loop over the generations. \<^verbatim>\<open>max\<close> of an empty list of scores
  raises \<^verbatim>\<open>ValueError\<close>.
\<close>

definition generation :: "ga_config \<Rightarrow> scheduler_data \<Rightarrow> ga_state \<Rightarrow> error + ga_state" where
  "generation cfg d st =
     (let fitness_scores = map (calculate_fitness d) (population st)
      in case fitness_scores of
           [] \<Rightarrow> Inl ValueError
         | f # fs \<Rightarrow>
             let current_best_idx = index_of (max_list f fs) fitness_scores;
                 current_best_fitness = fitness_scores ! current_best_idx;
                 improved = fitness_less (best_fitness st) (Finite current_best_fitness);
                 best_fitness' = (if improved then Finite current_best_fitness else best_fitness st);
                 best_schedule' =
                   (if improved then Some (population st ! current_best_idx) else best_schedule st)
             in (case select_and_reproduce cfg d (population st) fitness_scores (random_state st) of
                   Inl e \<Rightarrow> Inl e
                 | Inr (new_population, g') \<Rightarrow>
                     Inr \<lparr>population = new_population, best_schedule = best_schedule',
                          best_fitness = best_fitness', random_state = g'\<rparr>))"

fun run_generations :: "ga_config \<Rightarrow> scheduler_data \<Rightarrow> nat \<Rightarrow> ga_state \<Rightarrow> error + ga_state" where
  "run_generations cfg d 0 st = Inr st"
| "run_generations cfg d (Suc n) st =
     (case generation cfg d st of
        Inl e \<Rightarrow> Inl e
      | Inr st' \<Rightarrow> run_generations cfg d n st')"

text \<open>The state before the first generation, and after \<open>n\<close> passes of the loop.\<close>

definition evolve :: "ga_config \<Rightarrow> scheduler_data \<Rightarrow> rng \<Rightarrow> nat \<Rightarrow> error + ga_state" where
  "evolve cfg d g n =
     (case initialize_population cfg (preprocess_data d) g of
        Inl e \<Rightarrow> Inl e
      | Inr (population0, g') \<Rightarrow>
          run_generations cfg (preprocess_data d) n
            \<lparr>population = population0, best_schedule = None, best_fitness = NegInf,
             random_state = g'\<rparr>)"

text \<open>The value of \<^verbatim>\<open>best_fitness\<close> after \<open>n\<close> generations.\<close>

definition best_fitness_after :: "ga_config \<Rightarrow> scheduler_data \<Rightarrow> rng \<Rightarrow> nat \<Rightarrow> error + fitness" where
  "best_fitness_after cfg d g n =
     (case evolve cfg d g n of Inl e \<Rightarrow> Inl e | Inr st \<Rightarrow> Inr (best_fitness st))"

definition empty_schedule :: Schedule where
  "empty_schedule =
     \<lparr>s_id = ''empty'', s_name = ''Empty Schedule'', s_assignments = [],
      s_algorithm_used = None\<rparr>"

text \<open>
  \<^verbatim>\<open>GeneticScheduler.generate_schedule\<close>. A schedule without assignments has length
  0 and is false in \<^verbatim>\<open>best_schedule or ...\<close>, as \<^verbatim>\<open>None\<close> is.
\<close>

definition genetic_generate_schedule :: "ga_config \<Rightarrow> scheduler_data \<Rightarrow> rng
    \<Rightarrow> error + Schedule" where
  "genetic_generate_schedule cfg d g =
     (case evolve cfg d g (nat (generations cfg)) of
        Inl e \<Rightarrow> Inl e
      | Inr st \<Rightarrow>
          (case best_schedule st of
             None \<Rightarrow> Inr empty_schedule
           | Some best \<Rightarrow> if s_assignments best \<noteq> [] then Inr best else Inr empty_schedule))"

section \<open>Properties of conflict detection\<close>

lemma seen_before_iff:
  "seen_before pair seen as \<longleftrightarrow> (\<exists>a \<in> set as. pair a \<in> seen) \<or> \<not> distinct (map pair as)"
proof (induction as arbitrary: seen)
  case Nil
  show ?case by simp
next
  case (Cons a as)
  show ?case
  proof (cases "pair a \<in> seen")
    case True
    then show ?thesis by auto
  next
    case False
    have "seen_before pair seen (a # as) \<longleftrightarrow>
        (\<exists>b \<in> set as. pair b \<in> insert (pair a) seen) \<or> \<not> distinct (map pair as)"
      using False by (simp add: Cons.IH)
    also have "\<dots> \<longleftrightarrow> (\<exists>b \<in> set (a # as). pair b \<in> seen) \<or> \<not> distinct (map pair (a # as))"
      using False by (auto simp: image_iff) metis
    finally show ?thesis .
  qed
qed

lemma not_distinct_map_iff:
  "\<not> distinct (map f xs) \<longleftrightarrow> (\<exists>i j. i < length xs \<and> j < length xs \<and> i \<noteq> j \<and> f (xs ! i) = f (xs ! j))"
  by (auto simp: distinct_conv_nth)

lemma has_conflicts_distinct:
  "has_conflicts s \<longleftrightarrow>
     \<not> distinct (map (\<lambda>a. (a_professor_id a, a_time_slot_id a)) (s_assignments s)) \<or>
     \<not> distinct (map (\<lambda>a. (a_room_id a, a_time_slot_id a)) (s_assignments s))"
  by (simp add: has_conflicts_def seen_before_iff)

lemma has_conflicts_iff:
  "has_conflicts s \<longleftrightarrow>
     (\<exists>i j. i < length (s_assignments s) \<and> j < length (s_assignments s) \<and> i \<noteq> j \<and>
        a_time_slot_id (s_assignments s ! i) = a_time_slot_id (s_assignments s ! j) \<and>
        (a_professor_id (s_assignments s ! i) = a_professor_id (s_assignments s ! j) \<or>
         a_room_id (s_assignments s ! i) = a_room_id (s_assignments s ! j)))"
  unfolding has_conflicts_distinct not_distinct_map_iff by auto



text \<open>
  What one group of assignments (those of one time slot) adds to the count, written with
  the numbers of distinct professors and rooms.
\<close>

definition group_conflicts :: "Assignment list \<Rightarrow> int" where
  "group_conflicts g =
     (int (length g) - int (card (a_professor_id ` set g))) +
     (int (length g) - int (card (a_room_id ` set g)))"

lemma group_conflicts_small: "length g \<le> 1 \<Longrightarrow> group_conflicts g = 0"
  by (cases g) (auto simp: group_conflicts_def)

lemma count_group_conflicts_sum:
  "count_group_conflicts acc gs = acc + sum_list (map group_conflicts gs)"
proof (induction gs arbitrary: acc)
  case Nil
  show ?case by simp
next
  case (Cons g gs)
  show ?case
  proof (cases "length g \<le> 1")
    case True
    then show ?thesis by (simp add: Cons.IH group_conflicts_small)
  next
    case False
    then show ?thesis
      by (simp add: Cons.IH Let_def group_conflicts_def length_remdups_card_conv)
  qed
qed

lemma add_to_group_keys: "map fst (add_to_group d k a) = (if k \<in> set (map fst d) then map fst d else map fst d @ [k])"
  by (induction d k a rule: add_to_group.induct) auto

lemma add_to_group_map_of:
  "map_of (add_to_group d k a) = (map_of d)(k \<mapsto> (case map_of d k of None \<Rightarrow> [a] | Some g \<Rightarrow> g @ [a]))"
  by (induction d k a rule: add_to_group.induct) (auto simp: fun_eq_iff)

lemma add_to_group_distinct: "distinct (map fst d) \<Longrightarrow> distinct (map fst (add_to_group d k a))"
  by (simp add: add_to_group_keys)

lemma group_by_time_slot_distinct:
  "distinct (map fst d) \<Longrightarrow> distinct (map fst (group_by_time_slot d as))"
  by (induction as arbitrary: d) (simp_all add: add_to_group_distinct)

lemma group_by_time_slot_map_of:
  "map_of (group_by_time_slot d as) t =
     (case map_of d t of
        None \<Rightarrow> if t \<in> a_time_slot_id ` set as then Some (filter (\<lambda>a. a_time_slot_id a = t) as) else None
      | Some g \<Rightarrow> Some (g @ filter (\<lambda>a. a_time_slot_id a = t) as))"
proof (induction as arbitrary: d)
  case Nil
  show ?case by (simp split: option.split)
next
  case (Cons a as)
  show ?case
    by (simp add: Cons.IH add_to_group_map_of split: option.split)
qed

lemma sum_list_dict:
  assumes "distinct (map fst d)"
  shows "sum_list (map (\<lambda>p. f (snd p)) d) = (\<Sum>k \<in> set (map fst d). f (the (map_of d k)))"
proof -
  have d: "distinct d" using assms by (simp add: distinct_map)
  have "sum_list (map (\<lambda>p. f (snd p)) d) = (\<Sum>p \<in> set d. f (snd p))"
    using d by (simp add: sum_list_distinct_conv_sum_set)
  also have "\<dots> = (\<Sum>p \<in> set d. f (the (map_of d (fst p))))"
    using assms by (intro sum.cong) auto
  also have "\<dots> = (\<Sum>k \<in> fst ` set d. f (the (map_of d k)))"
    using assms by (subst sum.reindex) (auto simp: inj_on_def distinct_map)
  finally show ?thesis by simp
qed

lemma get_conflict_count_sum:
  "get_conflict_count s =
     (\<Sum>t \<in> a_time_slot_id ` set (s_assignments s).
        group_conflicts (filter (\<lambda>a. a_time_slot_id a = t) (s_assignments s)))"
proof -
  let ?as = "s_assignments s"
  let ?d = "group_by_time_slot [] ?as"
  have dist: "distinct (map fst ?d)" by (rule group_by_time_slot_distinct) simp
  have mo: "map_of ?d t = (if t \<in> a_time_slot_id ` set ?as then Some (filter (\<lambda>a. a_time_slot_id a = t) ?as) else None)" for t
    by (simp add: group_by_time_slot_map_of)
  have keys: "set (map fst ?d) = a_time_slot_id ` set ?as"
  proof -
    have "fst ` set ?d = dom (map_of ?d)" by (simp add: dom_map_of_conv_image_fst)
    also have "\<dots> = a_time_slot_id ` set ?as" by (auto simp: mo dom_def)
    finally show ?thesis by simp
  qed
  have "get_conflict_count s = sum_list (map (\<lambda>p. group_conflicts (snd p)) ?d)"
    by (simp add: get_conflict_count_def count_group_conflicts_sum comp_def)
  also have "\<dots> = (\<Sum>k \<in> set (map fst ?d). group_conflicts (the (map_of ?d k)))"
    using dist by (rule sum_list_dict)
  also have "\<dots> = (\<Sum>t \<in> a_time_slot_id ` set ?as. group_conflicts (filter (\<lambda>a. a_time_slot_id a = t) ?as))"
    unfolding keys by (intro sum.cong) (auto simp: mo)
  finally show ?thesis .
qed


lemma group_conflicts_nonneg: "0 \<le> group_conflicts g"
proof -
  have "card (a_professor_id ` set g) \<le> length g" "card (a_room_id ` set g) \<le> length g"
    using card_length [of "map a_professor_id g"] card_length [of "map a_room_id g"] by simp_all
  then show ?thesis by (simp add: group_conflicts_def)
qed

lemma card_image_less_length:
  assumes "\<not> distinct (map f g)"
  shows "card (f ` set g) < length g"
proof -
  have "card (set (map f g)) \<le> length (map f g)" by (rule card_length)
  moreover have "card (set (map f g)) \<noteq> length (map f g)"
    using assms card_distinct by blast
  ultimately show ?thesis by simp
qed

lemma distinct_pairs_by_slot:
  "distinct (map (\<lambda>a. (f a, a_time_slot_id a)) as) \<longleftrightarrow>
     (\<forall>t. distinct (map f (filter (\<lambda>a. a_time_slot_id a = t) as)))"
  by (induction as) (auto simp: image_iff)

lemma conflict_count_positive:
  assumes "has_conflicts s"
  shows "1 \<le> get_conflict_count s"
proof -
  let ?as = "s_assignments s"
  let ?g = "\<lambda>t. filter (\<lambda>a. a_time_slot_id a = t) ?as"
  from assms obtain t where t: "\<not> distinct (map a_professor_id (?g t)) \<or> \<not> distinct (map a_room_id (?g t))"
    unfolding has_conflicts_distinct distinct_pairs_by_slot by blast
  then have ne: "?g t \<noteq> []" by auto
  then have mem: "t \<in> a_time_slot_id ` set ?as"
    by (auto simp: filter_empty_conv)
  have lp: "card (a_professor_id ` set (?g t)) \<le> length (?g t)"
    using card_length [of "map a_professor_id (?g t)"] by simp
  have lr: "card (a_room_id ` set (?g t)) \<le> length (?g t)"
    using card_length [of "map a_room_id (?g t)"] by simp
  have "1 \<le> group_conflicts (?g t)"
    using t card_image_less_length [of a_professor_id "?g t"]
      card_image_less_length [of a_room_id "?g t"] lp lr
    unfolding group_conflicts_def by linarith
  also have "\<dots> \<le> (\<Sum>t \<in> a_time_slot_id ` set ?as. group_conflicts (?g t))"
    using mem by (intro member_le_sum) (simp_all add: group_conflicts_nonneg)
  finally show ?thesis by (simp add: get_conflict_count_sum)
qed


text \<open>
  Claim C2. \<open>has_conflicts\<close> is true exactly when two assignments at different positions
  of the schedule share the time slot and also the professor or the room; and when such a
  pair exists, \<open>has_conflicts\<close> is true and \<open>get_conflict_count\<close> is at least 1.
\<close>

theorem has_conflicts_sound_complete:
  "(has_conflicts s \<longleftrightarrow>
      (\<exists>i j. i < length (s_assignments s) \<and> j < length (s_assignments s) \<and> i \<noteq> j \<and>
        a_time_slot_id (s_assignments s ! i) = a_time_slot_id (s_assignments s ! j) \<and>
        (a_professor_id (s_assignments s ! i) = a_professor_id (s_assignments s ! j) \<or>
         a_room_id (s_assignments s ! i) = a_room_id (s_assignments s ! j)))) \<and>
   ((\<exists>i j. i < length (s_assignments s) \<and> j < length (s_assignments s) \<and> i \<noteq> j \<and>
        a_time_slot_id (s_assignments s ! i) = a_time_slot_id (s_assignments s ! j) \<and>
        (a_professor_id (s_assignments s ! i) = a_professor_id (s_assignments s ! j) \<or>
         a_room_id (s_assignments s ! i) = a_room_id (s_assignments s ! j)))
    \<longrightarrow> has_conflicts s \<and> 1 \<le> get_conflict_count s)"
proof -
  have "1 \<le> get_conflict_count s" if "has_conflicts s"
    using that by (rule conflict_count_positive)
  then show ?thesis
    unfolding has_conflicts_iff [symmetric] by blast
qed

text \<open>
  Two sessions of one professor in one time slot, in different rooms: the pair exists,
  \<open>has_conflicts\<close> holds and the count is at least 1.
\<close>

definition double_booked :: Schedule where
  "double_booked =
     \<lparr>s_id = ''s1'', s_name = ''double booked'',
      s_assignments =
        [\<lparr>a_id = ''a1'', a_course_id = ''CS101'', a_professor_id = ''P1'', a_room_id = ''R1'',
          a_time_slot_id = ''T1'', a_session_number = 1\<rparr>,
         \<lparr>a_id = ''a2'', a_course_id = ''MA101'', a_professor_id = ''P1'', a_room_id = ''R2'',
          a_time_slot_id = ''T1'', a_session_number = 1\<rparr>],
      s_algorithm_used = None\<rparr>"

theorem has_conflicts_sound_complete_witness:
  "(\<exists>i j. i < length (s_assignments double_booked) \<and> j < length (s_assignments double_booked) \<and>
      i \<noteq> j \<and>
      a_time_slot_id (s_assignments double_booked ! i) =
        a_time_slot_id (s_assignments double_booked ! j) \<and>
      (a_professor_id (s_assignments double_booked ! i) =
         a_professor_id (s_assignments double_booked ! j) \<or>
       a_room_id (s_assignments double_booked ! i) =
         a_room_id (s_assignments double_booked ! j))) \<and>
   has_conflicts double_booked \<and> 1 \<le> get_conflict_count double_booked"
proof -
  have pair: "\<exists>i j. i < length (s_assignments double_booked) \<and>
      j < length (s_assignments double_booked) \<and> i \<noteq> j \<and>
      a_time_slot_id (s_assignments double_booked ! i) =
        a_time_slot_id (s_assignments double_booked ! j) \<and>
      (a_professor_id (s_assignments double_booked ! i) =
         a_professor_id (s_assignments double_booked ! j) \<or>
       a_room_id (s_assignments double_booked ! i) =
         a_room_id (s_assignments double_booked ! j))"
    by (rule exI [of _ 0], rule exI [of _ 1]) (simp add: double_booked_def)
  with has_conflicts_sound_complete [of double_booked] show ?thesis
    by blast
qed

text \<open>
  Claim C3. \<open>get_conflict_count\<close> is the sum, over the time slots that occur in the
  schedule, of (assignments in the slot minus distinct professors among them) plus
  (assignments in the slot minus distinct rooms among them). A slot with three
  assignments of one professor in one room therefore counts 4.
\<close>

theorem get_conflict_count_formula:
  "get_conflict_count s =
     (\<Sum>t \<in> a_time_slot_id ` set (s_assignments s).
        (int (length (filter (\<lambda>a. a_time_slot_id a = t) (s_assignments s))) -
         int (card (a_professor_id ` {a \<in> set (s_assignments s). a_time_slot_id a = t}))) +
        (int (length (filter (\<lambda>a. a_time_slot_id a = t) (s_assignments s))) -
         int (card (a_room_id ` {a \<in> set (s_assignments s). a_time_slot_id a = t}))))"
  unfolding get_conflict_count_sum group_conflicts_def set_filter ..


section \<open>Example data\<close>

text \<open>
  One lecture, one professor of its department, one classroom of the same capacity and
  one regular slot on Monday from 9 to 10.
\<close>

definition demo_course :: Course where
  "demo_course = \<lparr>c_id = ''CS101'', c_name = ''Introduction to Programming'', c_code = ''CS101'',
     c_credits = 4, c_duration = 60, c_course_type = LECTURE, c_capacity = 60,
     c_required_equipment = [], c_semester = 1, c_branch = ''CSE''\<rparr>"

definition demo_professor :: Professor where
  "demo_professor = \<lparr>p_id = ''P1'', p_name = ''Dr. John Smith'', p_department = ''CSE'',
     p_specializations = [], p_preferred_time_slots = Map.empty, p_unavailable_slots = {},
     p_is_active = True\<rparr>"

definition demo_room :: Room where
  "demo_room = \<lparr>r_id = ''R1'', r_capacity = 60, r_room_type = CLASSROOM, r_features = [],
     r_is_available = True, r_maintenance_slots = {}\<rparr>"

definition demo_slot :: TimeSlot where
  "demo_slot = \<lparr>ts_id = ''T1'', ts_day = MONDAY, ts_start_time = (9, 0, 0, 0),
     ts_end_time = (10, 0, 0, 0), ts_slot_type = REGULAR, ts_duration_minutes = 60,
     ts_is_active = True\<rparr>"

definition demo_data :: scheduler_data where
  "demo_data = \<lparr>courses = [demo_course], professors = [demo_professor], rooms = [demo_room],
     time_slots = [demo_slot]\<rparr>"

definition demo_assignment :: Assignment where
  "demo_assignment = \<lparr>a_id = ''CS101_P1_R1_T1'', a_course_id = ''CS101'', a_professor_id = ''P1'',
     a_room_id = ''R1'', a_time_slot_id = ''T1'', a_session_number = 1\<rparr>"


definition default_config :: csp_config where
  "default_config = \<lparr>use_arc_consistency = True, use_forward_checking = True,
     variable_ordering = ''mrv'', value_ordering = ''lcv''\<rparr>"

definition demo_schedule :: Schedule where
  "demo_schedule = \<lparr>s_id = ''csp_solution'', s_name = ''CSP Generated Schedule'',
     s_assignments = [demo_assignment],
     s_algorithm_used = Some ''ConstraintSatisfactionScheduler''\<rparr>"

text \<open>The same professor, and no time slot, room or course at all.\<close>

definition orphan_data :: scheduler_data where
  "orphan_data = \<lparr>courses = [], professors = [demo_professor], rooms = [], time_slots = []\<rparr>"

text \<open>Configurations of the genetic scheduler with two individuals and with one.\<close>

definition small_ga :: ga_config where
  "small_ga = \<lparr>population_size = 2, generations = 2, mutation_rate = 0.1, crossover_rate = 0.8,
     elite_size = 5\<rparr>"

definition single_ga :: ga_config where
  "single_ga = \<lparr>population_size = 1, generations = 1, mutation_rate = 0.1, crossover_rate = 0.8,
     elite_size = 5\<rparr>"

text \<open>
  The example with its only time slot turned into a break, and the one individual the
  genetic scheduler can build from it.
\<close>

definition break_slot :: TimeSlot where
  "break_slot = \<lparr>ts_id = ''T1'', ts_day = MONDAY, ts_start_time = (11, 0, 0, 0),
     ts_end_time = (11, 30, 0, 0), ts_slot_type = BREAK, ts_duration_minutes = 30,
     ts_is_active = True\<rparr>"

definition break_data :: scheduler_data where
  "break_data = \<lparr>courses = [demo_course], professors = [demo_professor], rooms = [demo_room],
     time_slots = [break_slot]\<rparr>"

definition individual_0 :: Schedule where
  "individual_0 = \<lparr>s_id = ''individual_0'', s_name = ''Random Schedule individual_0'',
     s_assignments = [demo_assignment], s_algorithm_used = None\<rparr>"

section \<open>Properties of the quality score\<close>


lemma total_score_loop_sum:
  "total_score_loop d acc as = acc + sum_list (map (assignment_score d) as)"
  by (induction as arbitrary: acc) simp_all

lemma get_time_preference_score_nonneg: "0 \<le> get_time_preference_score ts"
  by (simp add: get_time_preference_score_def Let_def)

lemma get_preference_score_nonneg: "0 \<le> get_preference_score p t"
  by (simp add: get_preference_score_def Let_def)

lemma get_suitability_score_nonneg: "0 \<le> get_suitability_score r ct n eq"
  by (simp add: get_suitability_score_def Let_def)

lemma assignment_score_ge_1: "1 \<le> assignment_score d a"
  using get_time_preference_score_nonneg get_preference_score_nonneg get_suitability_score_nonneg
  by (auto simp: assignment_score_def Let_def split: option.splits)

lemma sum_list_nonneg': "(\<And>x. x \<in> set xs \<Longrightarrow> 0 \<le> f x) \<Longrightarrow> (0::real) \<le> sum_list (map f xs)"
  by (induction xs) auto

lemma calculate_schedule_quality_nonneg: "0 \<le> calculate_schedule_quality d s"
proof -
  have "0 \<le> sum_list (map (assignment_score d) (s_assignments s))"
    by (rule sum_list_nonneg') (use assignment_score_ge_1 [of d] in \<open>simp add: order_trans [OF zero_le_one]\<close>)
  then show ?thesis
    by (simp add: calculate_schedule_quality_def Let_def total_score_loop_sum)
qed

text \<open>
  An assignment is resolved when its four ids are found in the collections; the score
  the specification states for it is then defined.
\<close>

definition resolved :: "scheduler_data \<Rightarrow> Assignment \<Rightarrow> bool" where
  "resolved d a =
     (find_by ts_id (time_slots d) (a_time_slot_id a) \<noteq> None \<and>
      find_by p_id (professors d) (a_professor_id a) \<noteq> None \<and>
      find_by r_id (rooms d) (a_room_id a) \<noteq> None \<and>
      find_by c_id (courses d) (a_course_id a) \<noteq> None)"

definition stated_score :: "scheduler_data \<Rightarrow> Assignment \<Rightarrow> real" where
  "stated_score d a =
     (let ts = the (find_by ts_id (time_slots d) (a_time_slot_id a));
          p = the (find_by p_id (professors d) (a_professor_id a));
          r = the (find_by r_id (rooms d) (a_room_id a));
          c = the (find_by c_id (courses d) (a_course_id a))
      in 1 + 0.2 * get_time_preference_score ts
           + 0.3 * get_preference_score p (a_time_slot_id a)
           + 0.2 * get_suitability_score r (CourseType_value (c_course_type c)) (c_capacity c)
                     (c_required_equipment c))"

lemma assignment_score_resolved: "resolved d a \<Longrightarrow> assignment_score d a = stated_score d a"
  by (auto simp: resolved_def assignment_score_def stated_score_def Let_def)

lemma quality_resolved:
  assumes "s_assignments s \<noteq> []" "\<forall>a \<in> set (s_assignments s). resolved d a"
  shows "calculate_schedule_quality d s =
     sum_list (map (stated_score d) (s_assignments s)) / real (length (s_assignments s))"
proof -
  have "map (assignment_score d) (s_assignments s) = map (stated_score d) (s_assignments s)"
    using assms(2) by (simp add: assignment_score_resolved)
  then have "sum_list (map (assignment_score d) (s_assignments s)) =
      sum_list (map (stated_score d) (s_assignments s))"
    by (rule arg_cong)
  then show ?thesis using assms(1)
    by (simp add: calculate_schedule_quality_def Let_def total_score_loop_sum)
qed



text \<open>
  Claim C6, as amended. The quality is 0 for an empty assignment list and never negative;
  for a schedule with assignments whose time slot, professor, room and course are all
  found in the collections, it is the average of
  1 + 0.2 * time preference + 0.3 * professor preference + 0.2 * room suitability.
\<close>

theorem calculate_schedule_quality_average:
  "(s_assignments s = [] \<longrightarrow> calculate_schedule_quality d s = 0) \<and>
   0 \<le> calculate_schedule_quality d s \<and>
   (s_assignments s \<noteq> [] \<and> (\<forall>a \<in> set (s_assignments s). resolved d a) \<longrightarrow>
      calculate_schedule_quality d s =
        sum_list (map (stated_score d) (s_assignments s)) / real (length (s_assignments s)))"
proof (intro conjI impI)
  show "calculate_schedule_quality d s = 0" if "s_assignments s = []"
    using that by (simp add: calculate_schedule_quality_def)
  show "0 \<le> calculate_schedule_quality d s"
    by (rule calculate_schedule_quality_nonneg)
  show "calculate_schedule_quality d s =
      sum_list (map (stated_score d) (s_assignments s)) / real (length (s_assignments s))"
    if "s_assignments s \<noteq> [] \<and> (\<forall>a \<in> set (s_assignments s). resolved d a)"
    using that quality_resolved by blast
qed

lemma demo_assignment_resolved: "resolved demo_data demo_assignment"
  by (simp add: resolved_def demo_data_def demo_assignment_def find_by_def demo_slot_def
      demo_professor_def demo_course_def demo_room_def)

lemma demo_stated_score: "stated_score demo_data demo_assignment = 1.53"
  by (simp add: stated_score_def demo_data_def demo_assignment_def find_by_def demo_slot_def
      demo_professor_def demo_course_def demo_room_def get_suitability_score_def
      Room_is_suitable_for_course_def get_preference_score_def get_time_preference_score_def
      hour_def lower_def lower_char_def)

theorem calculate_schedule_quality_average_witness:
  "s_assignments demo_schedule \<noteq> [] \<and> resolved demo_data demo_assignment \<and>
   calculate_schedule_quality demo_data demo_schedule = 1.53 \<and>
   calculate_schedule_quality demo_data (demo_schedule\<lparr>s_assignments := []\<rparr>) = 0"
proof -
  have ne: "s_assignments demo_schedule \<noteq> []"
    by (simp add: demo_schedule_def)
  have res: "\<forall>a \<in> set (s_assignments demo_schedule). resolved demo_data a"
    by (simp add: demo_schedule_def demo_assignment_resolved)
  have "calculate_schedule_quality demo_data demo_schedule =
      sum_list (map (stated_score demo_data) (s_assignments demo_schedule)) /
        real (length (s_assignments demo_schedule))"
    using calculate_schedule_quality_average [of demo_schedule demo_data] ne res by blast
  then have "calculate_schedule_quality demo_data demo_schedule = 1.53"
    by (simp add: demo_schedule_def demo_stated_score)
  moreover have "calculate_schedule_quality demo_data (demo_schedule\<lparr>s_assignments := []\<rparr>) = 0"
    using calculate_schedule_quality_average [of "demo_schedule\<lparr>s_assignments := []\<rparr>" demo_data]
    by simp
  ultimately show ?thesis using ne demo_assignment_resolved by simp
qed

text \<open>
  The claim as stated, for every schedule, fails where an id is not found. With the
  professor present and the time slot missing, the code adds neither the time term nor
  the professor term: the quality is 1, below 1 plus the professor term alone (0.15),
  while every other term of the stated sum is at least 0.
\<close>

theorem calculate_schedule_quality_counterexample:
  "find_by p_id (professors orphan_data) (a_professor_id demo_assignment) = Some demo_professor \<and>
   find_by ts_id (time_slots orphan_data) (a_time_slot_id demo_assignment) = None \<and>
   \<not> has_conflicts demo_schedule \<and>
   0.3 * get_preference_score demo_professor (a_time_slot_id demo_assignment) = 0.15 \<and>
   calculate_schedule_quality orphan_data demo_schedule = 1 \<and>
   calculate_schedule_quality orphan_data demo_schedule <
     1 + 0.3 * get_preference_score demo_professor (a_time_slot_id demo_assignment)"
  by (simp add: calculate_schedule_quality_def assignment_score_def orphan_data_def
      demo_schedule_def demo_assignment_def find_by_def demo_professor_def
      get_preference_score_def has_conflicts_def)


section \<open>Properties of the constraint satisfaction scheduler\<close>


text \<open>
  The invariant of the search: no value of the partial assignment conflicts with a value
  assigned after it (and so, the conflict test being symmetric, with any other).
\<close>

fun conflict_free :: "solution \<Rightarrow> bool" where
  "conflict_free [] = True"
| "conflict_free ((course_id, val) # rest) = (is_consistent course_id val rest \<and> conflict_free rest)"

lemma is_consistent_iff:
  "is_consistent c v sol \<longleftrightarrow> (\<forall>p \<in> set sol. \<not> assignments_conflict v (snd p))"
proof (induction sol)
  case Nil
  show ?case by simp
next
  case (Cons p sol)
  then show ?case by (cases p) simp
qed

lemma assignments_conflict_sym: "assignments_conflict a b \<longleftrightarrow> assignments_conflict b a"
  by (auto simp: assignments_conflict_def split: prod.splits)

lemma dict_set_mem: "p \<in> set (dict_set d k v) \<Longrightarrow> p = (k, v) \<or> p \<in> set d"
proof (induction d)
  case Nil
  then show ?case by simp
next
  case (Cons q d)
  then show ?case by (cases q) (auto split: if_splits)
qed

lemma conflict_free_dict_set:
  "conflict_free sol \<Longrightarrow> is_consistent c v sol \<Longrightarrow> conflict_free (dict_set sol c v)"
proof (induction sol)
  case Nil
  then show ?case by simp
next
  case (Cons p sol)
  obtain k w where p: "p = (k, w)" by (cases p)
  from Cons.prems have w: "\<not> assignments_conflict w v"
    by (simp add: p assignments_conflict_sym [of w v] split: if_splits)
  from Cons.prems have sol: "is_consistent k w sol" "conflict_free sol" "is_consistent c v sol"
    by (simp_all add: p split: if_splits)
  show ?case
  proof (cases "k = c")
    case True
    with sol show ?thesis by (simp add: p)
  next
    case False
    have "conflict_free (dict_set sol c v)"
      using sol Cons.IH by simp
    moreover have "is_consistent k w (dict_set sol c v)"
      unfolding is_consistent_iff
    proof
      fix q assume "q \<in> set (dict_set sol c v)"
      then have "q = (c, v) \<or> q \<in> set sol" by (rule dict_set_mem)
      then show "\<not> assignments_conflict w (snd q)"
        using w sol(1) by (auto simp: is_consistent_iff)
    qed
    ultimately show ?thesis using False by (simp add: p)
  qed
qed

lemma try_values_Some:
  "try_values attempt vals = Inr (Some r) \<Longrightarrow> \<exists>v \<in> set vals. attempt v = Inr (Some r)"
  by (induction vals) (auto split: sum.splits option.splits)

lemma backtrack_search_conflict_free:
  "backtrack_search cfg list_of n assignment domains = Inr (Some sol) \<Longrightarrow>
     conflict_free assignment \<Longrightarrow> conflict_free sol"
proof (induction cfg list_of n assignment domains arbitrary: sol rule: backtrack_search.induct)
  case (1 cfg list_of n assignment domains)
  note unfold = backtrack_search.simps [of cfg list_of n assignment domains]
  show ?case
  proof (cases "length assignment = n")
    case True
    with "1.prems" show ?thesis by (simp add: unfold)
  next
    case False
    show ?thesis
    proof (cases "select_unassigned_variable cfg assignment domains")
      case (Inl e)
      with False "1.prems" show ?thesis by (simp add: unfold)
    next
      case (Inr sel)
      show ?thesis
      proof (cases sel)
        case None
        with False Inr "1.prems" show ?thesis by (simp add: unfold)
      next
        case (Some course_id)
        from False Inr Some "1.prems"(1) obtain vals where
          vals: "order_domain_values cfg list_of course_id domains = Inr vals"
          by (cases "order_domain_values cfg list_of course_id domains") (simp_all add: unfold)
        let ?attempt = "\<lambda>val.
            if is_consistent course_id val assignment then
              let new_assignment = dict_set assignment course_id val
              in if use_forward_checking cfg then
                   let new_domains = forward_check course_id val domains
                   in if \<exists>domain \<in> set (map snd new_domains). domain = [] then Inr None
                      else backtrack_search cfg list_of n new_assignment new_domains
                 else backtrack_search cfg list_of n new_assignment domains
            else Inr None"
        from False Inr Some vals "1.prems"(1)
        have "try_values ?attempt vals = Inr (Some sol)" by (simp add: unfold)
        then obtain val where val: "val \<in> set vals" "?attempt val = Inr (Some sol)"
          by (blast dest: try_values_Some)
        from val(2) have cons: "is_consistent course_id val assignment"
          by (simp split: if_splits)
        then have cf: "conflict_free (dict_set assignment course_id val)"
          using "1.prems"(2) by (simp add: conflict_free_dict_set)
        show ?thesis
        proof (cases "use_forward_checking cfg")
          case True
          with val(2) cons have ne: "\<not> (\<exists>domain \<in> set (map snd (forward_check course_id val domains)). domain = [])"
            and res: "backtrack_search cfg list_of n (dict_set assignment course_id val)
                (forward_check course_id val domains) = Inr (Some sol)"
            by (simp_all add: Let_def split: if_splits)
          from "1.IH"(1) [OF False Inr Some vals val(1) cons refl True refl ne res cf]
          show ?thesis .
        next
          case fc: False
          with val(2) cons have res:
            "backtrack_search cfg list_of n (dict_set assignment course_id val) domains = Inr (Some sol)"
            by (simp add: Let_def)
          from "1.IH"(2) [OF False Inr Some vals val(1) cons refl fc res cf]
          show ?thesis .
        qed
      qed
    qed
  qed
qed

lemma solution_pairs:
  "(\<lambda>a. (a_professor_id a, a_time_slot_id a)) ` set (solution_to_assignments sol) =
     (\<lambda>p. (fst (snd p), snd (snd (snd p)))) ` set sol"
  "(\<lambda>a. (a_room_id a, a_time_slot_id a)) ` set (solution_to_assignments sol) =
     (\<lambda>p. (fst (snd (snd p)), snd (snd (snd p)))) ` set sol"
  by (induction sol rule: solution_to_assignments.induct) simp_all

lemma conflict_free_distinct:
  "conflict_free sol \<Longrightarrow>
     distinct (map (\<lambda>a. (a_professor_id a, a_time_slot_id a)) (solution_to_assignments sol)) \<and>
     distinct (map (\<lambda>a. (a_room_id a, a_time_slot_id a)) (solution_to_assignments sol))"
proof (induction sol rule: solution_to_assignments.induct)
  case 1
  show ?case by simp
next
  case (2 course_id professor_id room_id time_slot_id rest)
  from "2.prems" have free:
    "\<forall>p \<in> set rest. \<not> assignments_conflict (professor_id, room_id, time_slot_id) (snd p)"
    and rest: "conflict_free rest"
    by (simp_all add: is_consistent_iff)
  have "(professor_id, time_slot_id) \<notin> (\<lambda>p. (fst (snd p), snd (snd (snd p)))) ` set rest"
  proof
    assume "(professor_id, time_slot_id) \<in> (\<lambda>p. (fst (snd p), snd (snd (snd p)))) ` set rest"
    then obtain p where "p \<in> set rest" "fst (snd p) = professor_id" "snd (snd (snd p)) = time_slot_id"
      by auto
    with free show False
      by (cases p) (auto simp: assignments_conflict_def)
  qed
  moreover have "(room_id, time_slot_id) \<notin> (\<lambda>p. (fst (snd (snd p)), snd (snd (snd p)))) ` set rest"
  proof
    assume "(room_id, time_slot_id) \<in> (\<lambda>p. (fst (snd (snd p)), snd (snd (snd p)))) ` set rest"
    then obtain p where "p \<in> set rest" "fst (snd (snd p)) = room_id" "snd (snd (snd p)) = time_slot_id"
      by auto
    with free show False
      by (cases p) (auto simp: assignments_conflict_def)
  qed
  ultimately show ?case
    using "2.IH" [OF rest] by (simp add: solution_pairs)
qed

lemma conflict_free_no_conflicts:
  "conflict_free sol \<Longrightarrow> \<not> has_conflicts (solution_to_schedule sol)"
  using conflict_free_distinct [of sol]
  by (simp add: has_conflicts_distinct solution_to_schedule_def)



text \<open>
  Claim C1. Whenever \<open>generate_schedule\<close> returns a schedule with at least one
  assignment, \<open>has_conflicts\<close> is false on it: for every input, every configuration and
  every iteration order of the domains.
\<close>

theorem csp_schedule_conflict_free:
  assumes "generate_schedule cfg list_of d = Inr s" and "s_assignments s \<noteq> []"
  shows "\<not> has_conflicts s"
proof -
  from assms obtain domains sol where
    search: "backtrack_search cfg list_of (length (courses (preprocess_data d))) [] domains = Inr (Some sol)"
    and s: "s = solution_to_schedule sol"
    unfolding generate_schedule_def
    by (auto simp: failed_schedule_def split: sum.splits option.splits if_splits)
  have "conflict_free sol"
    using search by (rule backtrack_search_conflict_free) simp
  then show ?thesis unfolding s by (rule conflict_free_no_conflicts)
qed

theorem csp_schedule_conflict_free_witness:
  "generate_schedule default_config (\<lambda>xs. xs) demo_data = Inr demo_schedule \<and>
   s_assignments demo_schedule \<noteq> [] \<and> \<not> has_conflicts demo_schedule"
proof -
  have run: "generate_schedule default_config (\<lambda>xs. xs) demo_data = Inr demo_schedule"
    by code_simp
  have ne: "s_assignments demo_schedule \<noteq> []"
    by (simp add: demo_schedule_def)
  from csp_schedule_conflict_free [OF run ne] run ne show ?thesis by simp
qed

subsection \<open>No exception\<close>

text \<open>
  Every key the scheduler looks up is a key of the dictionary it looks in, so no lookup
  raises and \<open>generate_schedule\<close> always returns a schedule.
\<close>


lemma dict_get_Inr: "k \<in> set (map fst d) \<Longrightarrow> \<exists>v. dict_get d k = Inr v"
  by (cases "map_of d k") (auto simp: dict_get_def map_of_eq_None_iff)

lemma dict_set_same_keys: "k \<in> set (map fst d) \<Longrightarrow> map fst (dict_set d k v) = map fst d"
proof (induction d)
  case Nil
  then show ?case by simp
next
  case (Cons p d)
  obtain k' v' where p: "p = (k', v')" by (cases p)
  show ?case
  proof (cases "k' = k")
    case True
    then show ?thesis by (simp add: p)
  next
    case False
    with Cons.prems have "k \<in> set (map fst d)" by (simp add: p)
    with Cons.IH False show ?thesis by (simp add: p)
  qed
qed

lemma revise_domain_total:
  assumes "c1 \<in> set (map fst d)" "c2 \<in> set (map fst d)"
  shows "\<exists>d' r. revise_domain d c1 c2 = Inr (d', r) \<and> map fst d' = map fst d"
proof -
  from dict_get_Inr [OF assms(1)] obtain d1 where d1: "dict_get d c1 = Inr d1" ..
  from dict_get_Inr [OF assms(2)] obtain d2 where d2: "dict_get d c2 = Inr d2" ..
  show ?thesis
  proof (cases "d1 = []")
    case True
    then have "revise_domain d c1 c2 = Inr (d, False)"
      by (simp add: revise_domain_def d1)
    then show ?thesis by blast
  next
    case False
    define rm where "rm = filter (\<lambda>a. \<not> has_valid_assignment a d2) d1"
    have "revise_domain d c1 c2 =
        Inr (dict_set d c1 (filter (\<lambda>a. a \<notin> set rm) d1), rm \<noteq> [])"
      using False by (simp add: revise_domain_def d1 d2 Let_def rm_def)
    moreover have "map fst (dict_set d c1 (filter (\<lambda>a. a \<notin> set rm) d1)) = map fst d"
      by (rule dict_set_same_keys [OF assms(1)])
    ultimately show ?thesis by blast
  qed
qed

lemma initial_arcs_mem: "(a, b) \<in> set (initial_arcs ids) \<Longrightarrow> a \<in> set ids \<and> b \<in> set ids"
  by (induction ids) auto

lemma affected_arcs_mem:
  "(a, b) \<in> set (affected_arcs ids c1 c2) \<Longrightarrow> a \<in> set ids \<and> b = c1"
  by (auto simp: affected_arcs_def)

lemma arc_consistency_loop_total:
  assumes "set ids \<subseteq> set (map fst d)"
    and "\<forall>arc \<in> set queue. fst arc \<in> set (map fst d) \<and> snd arc \<in> set (map fst d)"
  shows "\<exists>d'. arc_consistency_loop ids queue d = Inr d' \<and> map fst d' = map fst d"
  using assms
proof (induction ids queue d rule: arc_consistency_loop.induct)
  case (1 ids d)
  show ?case by simp
next
  case (2 ids c1 c2 queue d)
  from "2.prems"(2) have c: "c1 \<in> set (map fst d)" "c2 \<in> set (map fst d)" by simp_all
  from revise_domain_total [OF c] obtain d' r where
    rev: "revise_domain d c1 c2 = Inr (d', r)" and keys: "map fst d' = map fst d" by blast
  show ?case
  proof (cases r)
    case True
    from c(1) keys obtain d1 where d1: "dict_get d' c1 = Inr d1"
      using dict_get_Inr [of c1 d'] by auto
    show ?thesis
    proof (cases "d1 = []")
      case empty: True
      with rev True d1 keys show ?thesis by simp
    next
      case False
      have q: "\<forall>arc \<in> set (queue @ affected_arcs ids c1 c2).
          fst arc \<in> set (map fst d') \<and> snd arc \<in> set (map fst d')"
      proof
        fix arc assume "arc \<in> set (queue @ affected_arcs ids c1 c2)"
        then consider "arc \<in> set queue" | "arc \<in> set (affected_arcs ids c1 c2)" by auto
        then show "fst arc \<in> set (map fst d') \<and> snd arc \<in> set (map fst d')"
        proof cases
          case 1
          with "2.prems"(2) show ?thesis unfolding keys by simp
        next
          case 2
          then have "fst arc \<in> set ids \<and> snd arc = c1"
            using affected_arcs_mem [of "fst arc" "snd arc" ids c1 c2] by simp
          with "2.prems"(1) c(1) show ?thesis unfolding keys by blast
        qed
      qed
      have i: "set ids \<subseteq> set (map fst d')" using "2.prems"(1) keys by simp
      from "2.IH"(1) [OF rev refl True d1 False i q] rev True d1 False keys
      show ?thesis by simp
    qed
  next
    case False
    have q: "\<forall>arc \<in> set queue. fst arc \<in> set (map fst d') \<and> snd arc \<in> set (map fst d')"
      using "2.prems"(2) keys by simp
    have i: "set ids \<subseteq> set (map fst d')" using "2.prems"(1) keys by simp
    from "2.IH"(2) [OF rev refl False i q] rev False keys
    show ?thesis by simp
  qed
qed

lemma search_domains_total: "\<exists>domains. search_domains cfg d = Inr domains"
proof (cases "use_arc_consistency cfg")
  case True
  let ?d = "initialize_domains (preprocess_data d)"
  have "\<exists>d'. arc_consistency_loop (map fst ?d) (initial_arcs (map fst ?d)) ?d = Inr d' \<and>
      map fst d' = map fst ?d"
    by (rule arc_consistency_loop_total) (auto dest: initial_arcs_mem)
  with True show ?thesis
    by (auto simp: search_domains_def apply_arc_consistency_def Let_def)
next
  case False
  then show ?thesis by (simp add: search_domains_def)
qed

lemma domain_sizes_total:
  "set ids \<subseteq> set (map fst d) \<Longrightarrow> \<exists>sizes. domain_sizes d ids = Inr sizes"
proof (induction ids)
  case Nil
  show ?case by simp
next
  case (Cons c ids)
  then obtain sizes where "domain_sizes d ids = Inr sizes" by auto
  moreover from Cons.prems obtain v where "dict_get d c = Inr v"
    using dict_get_Inr [of c d] by auto
  ultimately show ?case by simp
qed

lemma select_unassigned_variable_total:
  "\<exists>r. select_unassigned_variable cfg assignment d = Inr r"
proof -
  define unassigned where
    "unassigned = filter (\<lambda>c. c \<notin> set (map fst assignment)) (map fst d)"
  have "set unassigned \<subseteq> set (map fst d)" by (auto simp: unassigned_def)
  then obtain sizes where sizes: "domain_sizes d unassigned = Inr sizes"
    using domain_sizes_total by blast
  have len: "map fst sizes = unassigned" using sizes by (rule domain_sizes_keys)
  show ?thesis
  proof (cases unassigned)
    case Nil
    then show ?thesis
      by (simp add: select_unassigned_variable_def unassigned_def [symmetric] del: set_map)
  next
    case (Cons c cs)
    with len obtain k ks where "sizes = k # ks" by (cases sizes) auto
    with Cons sizes show ?thesis
      by (simp add: select_unassigned_variable_def unassigned_def [symmetric] del: set_map)
  qed
qed

lemma try_values_total:
  "(\<And>v. v \<in> set vals \<Longrightarrow> \<exists>r. attempt v = Inr r) \<Longrightarrow> \<exists>r. try_values attempt vals = Inr r"
proof (induction vals)
  case Nil
  show ?case by simp
next
  case (Cons v vals)
  from Cons.prems [of v] obtain r where r: "attempt v = Inr r" by auto
  from Cons.IH Cons.prems obtain r' where "try_values attempt vals = Inr r'" by auto
  with r show ?case by (cases r) simp_all
qed

lemma backtrack_search_total: "\<exists>r. backtrack_search cfg list_of n assignment domains = Inr r"
proof (induction cfg list_of n assignment domains rule: backtrack_search.induct)
  case (1 cfg list_of n assignment domains)
  note unfold = backtrack_search.simps [of cfg list_of n assignment domains]
  show ?case
  proof (cases "length assignment = n")
    case True
    then show ?thesis by (simp add: unfold)
  next
    case False
    from select_unassigned_variable_total obtain sel where
      sel: "select_unassigned_variable cfg assignment domains = Inr sel" by blast
    show ?thesis
    proof (cases sel)
      case None
      with False sel show ?thesis by (simp add: unfold)
    next
      case (Some course_id)
      from sel Some have "course_id \<in> set (map fst domains)"
        using select_unassigned_variable_mem by blast
      then have "\<exists>dom. dict_get domains course_id = Inr dom"
        by (rule dict_get_Inr)
      then obtain dom where "dict_get domains course_id = Inr dom" ..
      then have "order_domain_values cfg list_of course_id domains =
          Inr (if value_ordering cfg = ''lcv''
               then sort_key (\<lambda>val. count_conflicts course_id val domains) (list_of dom)
               else list_of dom)"
        by (simp add: order_domain_values_def Let_def)
      then obtain vals where vals: "order_domain_values cfg list_of course_id domains = Inr vals"
        by blast
      let ?attempt = "\<lambda>val.
          if is_consistent course_id val assignment then
            let new_assignment = dict_set assignment course_id val
            in if use_forward_checking cfg then
                 let new_domains = forward_check course_id val domains
                 in if \<exists>domain \<in> set (map snd new_domains). domain = [] then Inr None
                    else backtrack_search cfg list_of n new_assignment new_domains
               else backtrack_search cfg list_of n new_assignment domains
          else Inr None"
      have attempt: "\<exists>r. ?attempt val = Inr r" if val: "val \<in> set vals" for val
      proof (cases "is_consistent course_id val assignment")
        case cons: True
        show ?thesis
        proof (cases "use_forward_checking cfg")
          case fc: True
          show ?thesis
          proof (cases "\<exists>domain \<in> set (map snd (forward_check course_id val domains)). domain = []")
            case True
            with cons fc show ?thesis by (simp add: Let_def)
          next
            case ne: False
            from "1.IH"(1) [OF False sel Some vals val cons refl fc refl ne] cons fc ne
            show ?thesis by (simp add: Let_def)
          qed
        next
          case fc: False
          from "1.IH"(2) [OF False sel Some vals val cons refl fc] cons fc
          show ?thesis by (simp add: Let_def)
        qed
      next
        case False
        then show ?thesis by simp
      qed
      have "\<exists>r. try_values ?attempt vals = Inr r"
        by (rule try_values_total [of vals ?attempt]) (rule attempt)
      with False sel Some vals show ?thesis by (simp add: unfold)
    qed
  qed
qed

lemma generate_schedule_total: "\<exists>s. generate_schedule cfg list_of d = Inr s"
proof -
  obtain domains where d: "search_domains cfg d = Inr domains"
    using search_domains_total [of cfg d] ..
  obtain r where
    "backtrack_search cfg list_of (length (courses (preprocess_data d))) [] domains = Inr r"
    using backtrack_search_total [of cfg list_of "length (courses (preprocess_data d))" "[]" domains] ..
  with d show ?thesis
    by (cases r) (simp_all add: generate_schedule_def)
qed

text \<open>
  Claim C5. \<open>generate_schedule\<close> never raises, and when the search has tried every
  branch and returns \<^verbatim>\<open>None\<close>, it returns the schedule with id \<^verbatim>\<open>failed\<close>, name
  \<^verbatim>\<open>No Solution Found\<close> and no assignment.
\<close>

theorem generate_schedule_no_solution:
  "(\<exists>s. generate_schedule cfg list_of d = Inr s) \<and>
   (\<exists>domains. search_domains cfg d = Inr domains \<and>
      (backtrack_search cfg list_of (length (courses (preprocess_data d))) [] domains = Inr None \<longrightarrow>
       generate_schedule cfg list_of d =
         Inr \<lparr>s_id = ''failed'', s_name = ''No Solution Found'', s_assignments = [],
              s_algorithm_used = None\<rparr>))"
proof
  show "\<exists>s. generate_schedule cfg list_of d = Inr s"
    by (rule generate_schedule_total)
next
  obtain domains where doms: "search_domains cfg d = Inr domains"
    using search_domains_total [of cfg d] ..
  have "backtrack_search cfg list_of (length (courses (preprocess_data d))) [] domains = Inr None \<longrightarrow>
      generate_schedule cfg list_of d =
        Inr \<lparr>s_id = ''failed'', s_name = ''No Solution Found'', s_assignments = [],
             s_algorithm_used = None\<rparr>"
    using doms by (simp add: generate_schedule_def failed_schedule_def)
  with doms show "\<exists>domains. search_domains cfg d = Inr domains \<and>
      (backtrack_search cfg list_of (length (courses (preprocess_data d))) [] domains = Inr None \<longrightarrow>
       generate_schedule cfg list_of d =
         Inr \<lparr>s_id = ''failed'', s_name = ''No Solution Found'', s_assignments = [],
              s_algorithm_used = None\<rparr>)"
    by (intro exI [of _ domains] conjI)
qed

text \<open>The example without any time slot: the only course has an empty domain.\<close>

theorem generate_schedule_no_solution_witness:
  "search_domains default_config (demo_data\<lparr>time_slots := []\<rparr>) = Inr [(''CS101'', [])] \<and>
   backtrack_search default_config (\<lambda>xs. xs)
     (length (courses (preprocess_data (demo_data\<lparr>time_slots := []\<rparr>)))) [] [(''CS101'', [])] = Inr None \<and>
   generate_schedule default_config (\<lambda>xs. xs) (demo_data\<lparr>time_slots := []\<rparr>) =
     Inr \<lparr>s_id = ''failed'', s_name = ''No Solution Found'', s_assignments = [],
          s_algorithm_used = None\<rparr>"
proof -
  have doms: "search_domains default_config (demo_data\<lparr>time_slots := []\<rparr>) = Inr [(''CS101'', [])]"
    by code_simp
  have search: "backtrack_search default_config (\<lambda>xs. xs)
     (length (courses (preprocess_data (demo_data\<lparr>time_slots := []\<rparr>)))) [] [(''CS101'', [])] = Inr None"
    by code_simp
  from generate_schedule_no_solution [of default_config "\<lambda>xs. xs" "demo_data\<lparr>time_slots := []\<rparr>"]
  have "generate_schedule default_config (\<lambda>xs. xs) (demo_data\<lparr>time_slots := []\<rparr>) =
     Inr \<lparr>s_id = ''failed'', s_name = ''No Solution Found'', s_assignments = [],
          s_algorithm_used = None\<rparr>"
    unfolding doms using search by auto
  with doms search show ?thesis by (intro conjI)
qed

text \<open>
  Claim C10. With no course at all, the search returns the empty dictionary as a complete
  solution, \<^verbatim>\<open>if solution:\<close> takes it for false, and \<open>generate_schedule\<close> returns
  the \<^verbatim>\<open>failed\<close> schedule.
\<close>

theorem generate_schedule_no_courses:
  assumes "courses d = []"
  shows "search_domains cfg d = Inr [] \<and>
     backtrack_search cfg list_of (length (courses (preprocess_data d))) [] [] = Inr (Some []) \<and>
     generate_schedule cfg list_of d =
       Inr \<lparr>s_id = ''failed'', s_name = ''No Solution Found'', s_assignments = [],
            s_algorithm_used = None\<rparr>"
proof -
  have c: "courses (preprocess_data d) = []"
    using assms by (simp add: preprocess_data_def)
  have doms: "search_domains cfg d = Inr []"
    by (simp add: search_domains_def initialize_domains_def c apply_arc_consistency_def)
  have search: "backtrack_search cfg list_of (length (courses (preprocess_data d))) [] [] = Inr (Some [])"
    by (simp add: c backtrack_search.simps [of cfg list_of 0 "[]" "[]"])
  show ?thesis
    using doms search by (simp add: generate_schedule_def failed_schedule_def)
qed

theorem generate_schedule_no_courses_witness:
  "courses (demo_data\<lparr>courses := []\<rparr>) = [] \<and>
   generate_schedule default_config (\<lambda>xs. xs) (demo_data\<lparr>courses := []\<rparr>) =
     Inr \<lparr>s_id = ''failed'', s_name = ''No Solution Found'', s_assignments = [],
          s_algorithm_used = None\<rparr>"
proof -
  have "courses (demo_data\<lparr>courses := []\<rparr>) = []" by simp
  from generate_schedule_no_courses [OF this, of default_config "\<lambda>xs. xs"] this
  show ?thesis by simp
qed


subsection \<open>Initial domains\<close>


lemma set_set_add: "set (set_add x xs) = insert x (set xs)"
  by (auto simp: set_add_def)

lemma map_of_dict_set: "map_of (dict_set d k v) = (map_of d)(k \<mapsto> v)"
  by (induction d) (auto simp: fun_eq_iff)

lemma time_slot_loop_mem:
  "tr \<in> set (time_slot_loop c p r tss domain) \<Longrightarrow>
     tr \<in> set domain \<or>
     (\<exists>ts \<in> set tss. can_schedule_at_time c p r ts \<and> tr = (p_id p, r_id r, ts_id ts))"
  by (induction tss arbitrary: domain) (fastforce simp: set_set_add split: if_splits)+

lemma room_loop_mem:
  "tr \<in> set (room_loop d c p rs domain) \<Longrightarrow>
     tr \<in> set domain \<or>
     (\<exists>r \<in> set rs. can_room_host_course r c \<and>
        (\<exists>ts \<in> set (time_slots d). can_schedule_at_time c p r ts \<and> tr = (p_id p, r_id r, ts_id ts)))"
  by (induction rs arbitrary: domain) (fastforce dest: time_slot_loop_mem split: if_splits)+

lemma professor_loop_mem:
  "tr \<in> set (professor_loop d c ps domain) \<Longrightarrow>
     tr \<in> set domain \<or>
     (\<exists>p \<in> set ps. can_professor_teach_course p c \<and>
        (\<exists>r \<in> set (rooms d). can_room_host_course r c \<and>
          (\<exists>ts \<in> set (time_slots d). can_schedule_at_time c p r ts \<and> tr = (p_id p, r_id r, ts_id ts))))"
  by (induction ps arbitrary: domain) (fastforce dest: room_loop_mem split: if_splits)+

lemma course_loop_map_of:
  "map_of (course_loop d cs domains) cid = Some domain \<Longrightarrow>
     map_of domains cid = Some domain \<or>
     (\<exists>c \<in> set cs. c_id c = cid \<and> domain = professor_loop d c (professors d) [])"
  by (induction cs arbitrary: domains) (fastforce simp: map_of_dict_set split: if_splits)+

lemma lower_CourseType_value: "lower (CourseType_value ct) = ''laboratory'' \<longleftrightarrow> ct = LABORATORY"
  by (cases ct) (simp_all add: lower_def lower_char_def)

lemma required_features_of_mem:
  "f \<in> set (required_features_of es) \<longleftrightarrow> (\<exists>e \<in> set es. RoomFeature_of (lower e) = Some f)"
  by (induction es) (auto split: option.splits)


text \<open>
  What the specification requires of a professor, a room and a time slot for a course,
  condition by condition on the fields.
\<close>

definition admissible :: "Course \<Rightarrow> Professor \<Rightarrow> Room \<Rightarrow> TimeSlot \<Rightarrow> bool" where
  "admissible c p r ts =
     (p_is_active p \<and> p_department p = c_branch c \<and>
      r_is_available r \<and> c_capacity c \<le> r_capacity r \<and>
      (c_course_type c = LABORATORY \<longrightarrow>
         r_room_type r = ROOM_LABORATORY \<or> r_room_type r = COMPUTER_LAB) \<and>
      (\<forall>e \<in> set (c_required_equipment c). \<forall>f.
         RoomFeature_of (lower e) = Some f \<longrightarrow> f \<in> set (r_features r)) \<and>
      ts_is_active ts \<and> ts_slot_type ts \<noteq> BREAK \<and> ts_slot_type ts \<noteq> LUNCH \<and>
      c_duration c \<le> ts_duration_minutes ts \<and>
      (ts_slot_type ts = REGULAR \<or> c_course_type c = LABORATORY \<and> ts_slot_type ts = EXTENDED) \<and>
      ts_id ts \<notin> p_unavailable_slots p \<and> ts_id ts \<notin> r_maintenance_slots r)"

lemma checks_admissible:
  assumes "can_professor_teach_course p c" "can_room_host_course r c" "can_schedule_at_time c p r ts"
  shows "admissible c p r ts"
proof -
  from assms(1) have p: "p_is_active p" "p_department p = c_branch c"
    by (simp_all add: can_professor_teach_course_def)
  from assms(2) have r: "r_is_available r" "c_capacity c \<le> r_capacity r"
    "c_course_type c = LABORATORY \<longrightarrow> r_room_type r = ROOM_LABORATORY \<or> r_room_type r = COMPUTER_LAB"
    "c_required_equipment c \<noteq> [] \<longrightarrow> has_all_features r (required_features_of (c_required_equipment c))"
    by (auto simp: can_room_host_course_def Room_is_suitable_for_course_def lower_CourseType_value
        split: if_splits)
  from r(4) have eq: "\<forall>e \<in> set (c_required_equipment c). \<forall>f.
      RoomFeature_of (lower e) = Some f \<longrightarrow> f \<in> set (r_features r)"
    by (cases "c_required_equipment c = []")
      (auto simp: has_all_features_def required_features_of_mem)
  from assms(3) have ts: "ts_is_active ts" "ts_slot_type ts \<noteq> BREAK" "ts_slot_type ts \<noteq> LUNCH"
    "c_duration c \<le> ts_duration_minutes ts"
    "ts_slot_type ts = REGULAR \<or> c_course_type c = LABORATORY \<and> ts_slot_type ts = EXTENDED"
    "ts_id ts \<notin> p_unavailable_slots p" "ts_id ts \<notin> r_maintenance_slots r"
    by (auto simp: can_schedule_at_time_def is_suitable_for_course_type_def
        can_accommodate_duration_def Professor_is_available_at_def Room_is_available_at_def
        lower_CourseType_value split: if_splits)
  from p r(1-3) eq ts show ?thesis
    unfolding admissible_def by blast
qed

text \<open>
  Claim C4. Every triple of an initial domain is made of a professor, a room and a time
  slot of the input that satisfy, together and for a course with the domain's key, every
  condition of the specification. (When several courses share an id, the dictionary keeps
  the domain built for the last of them.)
\<close>

theorem initial_domain_sound:
  assumes "map_of (initialize_domains d) course_id = Some domain" and "tr \<in> set domain"
  shows "\<exists>c \<in> set (courses d). c_id c = course_id \<and>
     domain = professor_loop d c (professors d) [] \<and>
     (\<exists>p \<in> set (professors d). \<exists>r \<in> set (rooms d). \<exists>ts \<in> set (time_slots d).
        tr = (p_id p, r_id r, ts_id ts) \<and> admissible c p r ts)"
proof -
  from assms(1) obtain c where c: "c \<in> set (courses d)" "c_id c = course_id"
    "domain = professor_loop d c (professors d) []"
    unfolding initialize_domains_def by (auto dest: course_loop_map_of)
  from assms(2) obtain p r ts where
    "p \<in> set (professors d)" "r \<in> set (rooms d)" "ts \<in> set (time_slots d)"
    "can_professor_teach_course p c" "can_room_host_course r c" "can_schedule_at_time c p r ts"
    "tr = (p_id p, r_id r, ts_id ts)"
    unfolding c(3) by (auto dest: professor_loop_mem)
  with c show ?thesis
    by (blast intro: checks_admissible)
qed

lemma demo_domains: "initialize_domains demo_data = [(''CS101'', [(''P1'', ''R1'', ''T1'')])]"
  by code_simp

theorem initial_domain_sound_witness:
  "map_of (initialize_domains demo_data) ''CS101'' = Some [(''P1'', ''R1'', ''T1'')] \<and>
   (''P1'', ''R1'', ''T1'') \<in> set [(''P1'', ''R1'', ''T1'')] \<and>
   (\<exists>c \<in> set (courses demo_data). c_id c = ''CS101'' \<and>
     (\<exists>p \<in> set (professors demo_data). \<exists>r \<in> set (rooms demo_data).
      \<exists>ts \<in> set (time_slots demo_data).
        (''P1'', ''R1'', ''T1'') = (p_id p, r_id r, ts_id ts) \<and> admissible c p r ts))"
proof -
  have dom: "map_of (initialize_domains demo_data) ''CS101'' = Some [(''P1'', ''R1'', ''T1'')]"
    by (simp add: demo_domains)
  have mem: "(''P1'', ''R1'', ''T1'') \<in> set [(''P1'', ''R1'', ''T1'')]"
    by simp
  have "\<exists>c \<in> set (courses demo_data). c_id c = ''CS101'' \<and>
     (\<exists>p \<in> set (professors demo_data). \<exists>r \<in> set (rooms demo_data).
      \<exists>ts \<in> set (time_slots demo_data).
        (''P1'', ''R1'', ''T1'') = (p_id p, r_id r, ts_id ts) \<and> admissible c p r ts)"
    using initial_domain_sound [OF dom mem] by (elim bexE conjE) (intro bexI conjI)
  with dom mem show ?thesis by (intro conjI)
qed



section \<open>Properties of the genetic scheduler\<close>
lemma fitness_le_refl: "fitness_le b b"
  by (cases b) simp_all

lemma fitness_less_le: "fitness_less a b \<Longrightarrow> fitness_le a b"
  by (cases a; cases b) simp_all

lemma generation_best_fitness:
  assumes "generation cfg d st = Inr st'"
  shows "fitness_le (best_fitness st) (best_fitness st')"
proof -
  from assms obtain f fs where "map (calculate_fitness d) (population st) = f # fs"
    by (auto simp: generation_def Let_def split: list.splits)
  with assms obtain c where
    "best_fitness st' = (if fitness_less (best_fitness st) (Finite c) then Finite c else best_fitness st)"
    by (auto simp: generation_def Let_def split: sum.splits)
  then show ?thesis
    by (simp add: fitness_le_refl fitness_less_le)
qed

lemma run_generations_Suc:
  "run_generations cfg d (Suc n) st =
     (case run_generations cfg d n st of Inl e \<Rightarrow> Inl e | Inr st' \<Rightarrow> generation cfg d st')"
proof (induction n arbitrary: st)
  case 0
  show ?case by (simp split: sum.splits)
next
  case (Suc n)
  have "run_generations cfg d (Suc (Suc n)) st =
      (case generation cfg d st of Inl e \<Rightarrow> Inl e
       | Inr st1 \<Rightarrow> run_generations cfg d (Suc n) st1)"
    by (rule run_generations.simps(2))
  also have "\<dots> = (case generation cfg d st of Inl e \<Rightarrow> Inl e
       | Inr st1 \<Rightarrow> (case run_generations cfg d n st1 of Inl e \<Rightarrow> Inl e
                      | Inr st' \<Rightarrow> generation cfg d st'))"
    by (simp only: Suc.IH)
  also have "\<dots> = (case run_generations cfg d (Suc n) st of Inl e \<Rightarrow> Inl e
       | Inr st' \<Rightarrow> generation cfg d st')"
    by (cases "generation cfg d st") simp_all
  finally show ?case .
qed


text \<open>
  Claim C8. The tracked best fitness never decreases: in every run in which generation
  \<open>n + 1\<close> is reached, the value recorded after it is at least the value recorded after
  generation \<open>n\<close>.
\<close>

theorem best_fitness_monotone:
  assumes "best_fitness_after cfg d g n = Inr b" and "best_fitness_after cfg d g (Suc n) = Inr b'"
  shows "fitness_le b b'"
proof -
  from assms(1) obtain p g0 st where
    init: "initialize_population cfg (preprocess_data d) g = Inr (p, g0)"
    and st: "run_generations cfg (preprocess_data d) n
        \<lparr>population = p, best_schedule = None, best_fitness = NegInf, random_state = g0\<rparr> = Inr st"
    and b: "b = best_fitness st"
    by (auto simp: best_fitness_after_def evolve_def split: sum.splits)
  from assms(2) init st obtain st' where
    st': "generation cfg (preprocess_data d) st = Inr st'" and b': "b' = best_fitness st'"
    by (auto simp: best_fitness_after_def evolve_def run_generations_Suc simp del: run_generations.simps
        split: sum.splits)
  show ?thesis unfolding b b' using st' by (rule generation_best_fitness)
qed


theorem best_fitness_monotone_witness:
  "best_fitness_after small_ga demo_data (\<lambda>i. 0) 0 = Inr NegInf \<and>
   best_fitness_after small_ga demo_data (\<lambda>i. 0) 1 = Inr (Finite 1.53) \<and>
   fitness_le NegInf (Finite 1.53)"
proof -
  have before: "best_fitness_after small_ga demo_data (\<lambda>i. 0) 0 = Inr NegInf"
    by code_simp
  have after: "best_fitness_after small_ga demo_data (\<lambda>i. 0) (Suc 0) = Inr (Finite 1.53)"
    by code_simp
  from best_fitness_monotone [OF before after] before after show ?thesis by simp
qed
lemma generation_empty_population:
  "population st = [] \<Longrightarrow> generation cfg d st = Inl ValueError"
  by (simp add: generation_def)


text \<open>
  Claim C9 says that an empty population gives the \<^verbatim>\<open>empty\<close> schedule. With
  \<^verbatim>\<open>population_size\<close> 0 and one generation, whatever the data, the first generation
  takes \<^verbatim>\<open>max\<close> of an empty list of scores: the call raises \<^verbatim>\<open>ValueError\<close> and
  returns nothing.
\<close>

theorem genetic_empty_population_raises:
  "genetic_generate_schedule
     \<lparr>population_size = 0, generations = 1, mutation_rate = m, crossover_rate = c, elite_size = k\<rparr>
     d g = Inl ValueError"
  by (simp add: genetic_generate_schedule_def evolve_def initialize_population_def
      generation_empty_population)

lemma str_of_nat_0: "str_of_nat 0 = ''0''"
  by code_simp

lemma preprocess_break_data: "preprocess_data break_data = break_data"
  by (simp add: preprocess_data_def break_data_def)

lemma break_assignment:
  "create_random_assignment break_data demo_course g = Inr (Some demo_assignment, \<lambda>i. g (Suc (Suc (Suc i))))"
  by (simp add: create_random_assignment_def break_data_def demo_course_def demo_professor_def
      demo_room_def break_slot_def Room_is_suitable_for_course_def lower_def lower_char_def
      random_choice_def next_raw_def demo_assignment_def)

lemma break_population:
  "initialize_population single_ga break_data g =
     Inr ([\<lparr>s_id = ''individual_0'', s_name = ''Random Schedule individual_0'',
            s_assignments = [demo_assignment], s_algorithm_used = None\<rparr>],
          \<lambda>i. g (Suc (Suc (Suc i))))"
  by (simp add: initialize_population_def single_ga_def create_random_schedule_def
      break_assignment str_of_nat_0 break_data_def [THEN arg_cong, of courses])


lemma break_generation:
  "generation single_ga break_data
     \<lparr>population = [individual_0], best_schedule = None, best_fitness = NegInf, random_state = g\<rparr> =
   Inr \<lparr>population = [individual_0], best_schedule = Some individual_0,
        best_fitness = Finite (calculate_fitness break_data individual_0), random_state = g\<rparr>"
  by (simp add: generation_def select_and_reproduce_def slice_to_def single_ga_def
      reproduce_loop.simps)


text \<open>
  Claim C7 says that no solver assigns a break or lunch slot. The genetic scheduler
  chooses among the active time slots whatever their type: on the example whose only slot
  is a break, it returns, for every random source, the schedule that puts the course in
  that slot.
\<close>

theorem genetic_break_slot_assigned:
  "genetic_generate_schedule single_ga break_data g = Inr individual_0 \<and>
   s_assignments individual_0 = [demo_assignment] \<and>
   find_by ts_id (time_slots break_data) (a_time_slot_id demo_assignment) = Some break_slot \<and>
   ts_slot_type break_slot = BREAK"
proof -
  have "evolve single_ga break_data g (nat (generations single_ga)) =
      Inr \<lparr>population = [individual_0], best_schedule = Some individual_0,
           best_fitness = Finite (calculate_fitness break_data individual_0),
           random_state = \<lambda>i. g (Suc (Suc (Suc i)))\<rparr>"
    using break_population [of g]
    by (simp add: evolve_def preprocess_break_data individual_0_def [symmetric] break_generation
        single_ga_def [THEN arg_cong, of generations])
  then have "genetic_generate_schedule single_ga break_data g = Inr individual_0"
    by (simp add: genetic_generate_schedule_def individual_0_def)
  moreover have "find_by ts_id (time_slots break_data) (a_time_slot_id demo_assignment) = Some break_slot"
    by (simp add: find_by_def break_data_def break_slot_def demo_assignment_def)
  ultimately show ?thesis
    by (simp add: individual_0_def break_slot_def)
qed


end
